theory Spec2Isabelle
  imports Main "HOL-Library.Word"
begin

unbundle bit_operations_syntax

section \<open>JavaScript strings and numbers\<close>

text \<open>
  A JavaScript string is modelled as a \<^typ>\<open>string\<close>: the list of its code units, here the
  code units below 256. The character classes of the regular expressions used by the
  source and by ethers are ranges of code units. A code unit of 128 or more is in none of
  these classes, before or after a case mapping.
\<close>

definition isDigit :: "char \<Rightarrow> bool" where
  \<comment> \<open>the class \<open>[0-9]\<close>\<close>
  "isDigit c = (48 \<le> (of_char c :: nat) \<and> (of_char c :: nat) \<le> 57)"

definition isLowerAF :: "char \<Rightarrow> bool" where
  \<comment> \<open>the class \<open>[a-f]\<close>\<close>
  "isLowerAF c = (97 \<le> (of_char c :: nat) \<and> (of_char c :: nat) \<le> 102)"

definition isUpperAF :: "char \<Rightarrow> bool" where
  \<comment> \<open>the class \<open>[A-F]\<close>\<close>
  "isUpperAF c = (65 \<le> (of_char c :: nat) \<and> (of_char c :: nat) \<le> 70)"

definition isHexDigit :: "char \<Rightarrow> bool" where
  \<comment> \<open>the class \<open>[0-9a-fA-F]\<close>\<close>
  "isHexDigit c = (isDigit c \<or> isLowerAF c \<or> isUpperAF c)"

definition isLowerAZ :: "char \<Rightarrow> bool" where
  "isLowerAZ c = (97 \<le> (of_char c :: nat) \<and> (of_char c :: nat) \<le> 122)"

definition isUpperAZ :: "char \<Rightarrow> bool" where
  "isUpperAZ c = (65 \<le> (of_char c :: nat) \<and> (of_char c :: nat) \<le> 90)"

definition isAlnum :: "char \<Rightarrow> bool" where
  \<comment> \<open>the class \<open>[0-9A-Za-z]\<close>\<close>
  "isAlnum c = (isDigit c \<or> isUpperAZ c \<or> isLowerAZ c)"

definition toLowerChar :: "char \<Rightarrow> char" where
  \<comment> \<open>\<open>String.prototype.toLowerCase\<close> on one code unit below 256: the ASCII capitals
      and the Latin-1 capitals (0xC0 to 0xDE but the multiplication sign 0xD7)\<close>
  "toLowerChar c =
     (let n = (of_char c :: nat)
      in if (65 \<le> n \<and> n \<le> 90) \<or> (192 \<le> n \<and> n \<le> 222 \<and> n \<noteq> 215)
         then char_of (n + 32) else c)"

definition toUpperChar :: "char \<Rightarrow> char" where
  \<comment> \<open>\<open>toUpperCase\<close> on one ASCII code unit; ethers applies it to hexadecimal digits
      and to \<open>[0-9A-Za-z]\<close> only\<close>
  "toUpperChar c = (if isLowerAZ c then char_of ((of_char c :: nat) - 32) else c)"

definition toLowerCase :: "string \<Rightarrow> string" where
  "toLowerCase s = map toLowerChar s"

definition toUpperCase :: "string \<Rightarrow> string" where
  "toUpperCase s = map toUpperChar s"

definition startsWith :: "string \<Rightarrow> string \<Rightarrow> bool" where
  \<comment> \<open>\<open>s.startsWith(p)\<close>\<close>
  "startsWith s p = (take (length p) s = p)"

definition slice :: "string \<Rightarrow> nat \<Rightarrow> nat \<Rightarrow> string" where
  \<comment> \<open>\<open>s.slice(a, b)\<close> for \<open>0 \<le> a \<le> b\<close>\<close>
  "slice s a b = take (b - a) (drop a s)"

definition hexDigitValue :: "char \<Rightarrow> nat" where
  "hexDigitValue c =
     (if isDigit c then of_char c - 48
      else if isLowerAF c then of_char c - 87
      else of_char c - 55)"

definition hexChar :: "nat \<Rightarrow> char" where
  \<comment> \<open>the digit \<open>"0123456789abcdef"[d]\<close>, for \<open>d < 16\<close>\<close>
  "hexChar d = (if d < 10 then char_of (48 + d) else char_of (87 + d))"

definition hexValue :: "string \<Rightarrow> nat" where
  \<comment> \<open>the number written by a string of hexadecimal digits\<close>
  "hexValue s = foldl (\<lambda>acc c. 16 * acc + hexDigitValue c) 0 s"

definition decValue :: "string \<Rightarrow> nat" where
  \<comment> \<open>the number written by a string of decimal digits\<close>
  "decValue s = foldl (\<lambda>acc c. 10 * acc + ((of_char c :: nat) - 48)) 0 s"

fun toString16 :: "nat \<Rightarrow> string" where
  \<comment> \<open>\<open>n.toString(16)\<close> of a non-negative integer\<close>
  "toString16 n =
     (if n < 16 then [hexChar n] else toString16 (n div 16) @ [hexChar (n mod 16)])"

declare toString16.simps [simp del]

fun toString10 :: "nat \<Rightarrow> string" where
  \<comment> \<open>\<open>String(n)\<close> of a non-negative integer\<close>
  "toString10 n =
     (if n < 10 then [char_of (48 + n)] else toString10 (n div 10) @ [char_of (48 + n mod 10)])"

declare toString10.simps [simp del]

definition padStart :: "nat \<Rightarrow> string \<Rightarrow> string" where
  \<comment> \<open>\<open>s.padStart(w, "0")\<close>\<close>
  "padStart w s = replicate (w - length s) (CHR ''0'') @ s"

definition isWhiteSpace :: "char \<Rightarrow> bool" where
  \<comment> \<open>the white space and line terminators below 256 that \<open>parseInt\<close> skips\<close>
  "isWhiteSpace c = ((of_char c :: nat) \<in> {9, 10, 11, 12, 13, 32, 160})"

definition parseInt16 :: "string \<Rightarrow> int option" where
  \<comment> \<open>\<open>parseInt(s, 16)\<close>: leading white space, an optional sign, an optional \<open>0x\<close> or
      \<open>0X\<close>, then the longest run of hexadecimal digits; \<open>None\<close> is \<open>NaN\<close>. The source
      applies it to two characters, where the double is exact; \<open>-0\<close> is \<open>Some 0\<close>, which
      the comparisons of the source do not tell from \<open>0\<close>.\<close>
  "parseInt16 s =
     (let s1 = dropWhile isWhiteSpace s;
          neg = (take 1 s1 = ''-'');
          s2 = (if take 1 s1 = ''-'' \<or> take 1 s1 = ''+'' then drop 1 s1 else s1);
          s3 = (if take 2 s2 = ''0x'' \<or> take 2 s2 = ''0X'' then drop 2 s2 else s2);
          ds = takeWhile isHexDigit s3
      in if ds = [] then None
         else Some (if neg then - int (hexValue ds) else int (hexValue ds)))"

section \<open>Errors\<close>

datatype error =
    SegmentMustStartWith0x       \<comment> \<open>\<open>CAIP-350 segment must start with 0x\<close>\<close>
  | ValueTooShort                \<comment> \<open>\<open>Agent registry record value too short\<close>\<close>
  | InvalidAgentIdLength         \<comment> \<open>\<open>Invalid agent ID length\<close>\<close>
  | LengthDoesNotMatchPayload    \<comment> \<open>\<open>Agent ID length does not match payload\<close>\<close>
  | UnsupportedNamespace string  \<comment> \<open>\<open>Unsupported CAIP namespace: ...\<close>\<close>
  | NegativeChainReference       \<comment> \<open>\<open>Chain reference must be non-negative\<close>\<close>
  | InvalidBytesLike             \<comment> \<open>ethers: \<open>invalid BytesLike value\<close>\<close>
  | InvalidAddress               \<comment> \<open>ethers: \<open>invalid address\<close>\<close>
  | BadAddressChecksum           \<comment> \<open>ethers: \<open>bad address checksum\<close>\<close>
  | BadIcapChecksum              \<comment> \<open>ethers: \<open>bad icap checksum\<close>\<close>
  | InvalidNumericValue          \<comment> \<open>ethers \<open>getUint\<close>: a negative value\<close>
  | BigIntError                  \<comment> \<open>\<open>BigInt(v)\<close>: \<open>RangeError\<close> or \<open>SyntaxError\<close>\<close>
  | TypeError                    \<comment> \<open>a method called on a value that has none\<close>
  | InvalidAgentId               \<comment> \<open>\<open>parseAgentId\<close> rejects the identifier\<close>
  | LibraryError                 \<comment> \<open>an error raised inside the interop-addresses package\<close>

section \<open>Keccak-256\<close>

text \<open>
  ethers' \<open>keccak256\<close>, used by the EIP-55 checksum: the Keccak-f[1600] permutation on 25
  lanes of 64 bits (lane \<open>(x, y)\<close> at index \<open>x + 5 * y\<close>), rate 136 bytes, padding
  \<open>0x01 .. 0x80\<close>, 32 bytes of output. Bytes are natural numbers below 256.
\<close>

definition keccak_rc :: "64 word list" where
  "keccak_rc = [0x0000000000000001, 0x0000000000008082, 0x800000000000808A, 0x8000000080008000,
    0x000000000000808B, 0x0000000080000001, 0x8000000080008081, 0x8000000000008009,
    0x000000000000008A, 0x0000000000000088, 0x0000000080008009, 0x000000008000000A,
    0x000000008000808B, 0x800000000000008B, 0x8000000000008089, 0x8000000000008003,
    0x8000000000008002, 0x8000000000000080, 0x000000000000800A, 0x800000008000000A,
    0x8000000080008081, 0x8000000000008080, 0x0000000080000001, 0x8000000080008008]"

definition keccak_rot :: "nat list" where
  "keccak_rot = [0, 1, 62, 28, 27,  36, 44, 6, 55, 20,  3, 10, 43, 25, 39,
                 41, 45, 15, 21, 8,  18, 2, 61, 56, 14]"

definition lane :: "64 word list \<Rightarrow> nat \<Rightarrow> nat \<Rightarrow> 64 word" where
  "lane a x y = a ! (x mod 5 + 5 * (y mod 5))"

definition theta :: "64 word list \<Rightarrow> 64 word list" where
  "theta a =
     (let c = map (\<lambda>x. lane a x 0 XOR lane a x 1 XOR lane a x 2 XOR lane a x 3 XOR lane a x 4)
                [0..<5];
          d = map (\<lambda>x. c ! ((x + 4) mod 5) XOR word_rotl 1 (c ! ((x + 1) mod 5))) [0..<5]
      in map (\<lambda>i. a ! i XOR d ! (i mod 5)) [0..<25])"

definition rho_pi :: "64 word list \<Rightarrow> 64 word list" where
  "rho_pi a =
     map (\<lambda>i. let x = i mod 5; y = i div 5; sx = (x + 3 * y) mod 5; j = sx + 5 * x
               in word_rotl (keccak_rot ! j) (a ! j)) [0..<25]"

definition chi :: "64 word list \<Rightarrow> 64 word list" where
  "chi b =
     map (\<lambda>i. let x = i mod 5; y = i div 5
               in lane b x y XOR (NOT (lane b (x + 1) y) AND lane b (x + 2) y)) [0..<25]"

definition iota :: "64 word \<Rightarrow> 64 word list \<Rightarrow> 64 word list" where
  "iota rc a = (a ! 0 XOR rc) # tl a"

definition keccak_round :: "64 word list \<Rightarrow> 64 word \<Rightarrow> 64 word list" where
  "keccak_round a rc = iota rc (chi (rho_pi (theta a)))"

definition keccak_f :: "64 word list \<Rightarrow> 64 word list" where
  "keccak_f a = foldl keccak_round a keccak_rc"

definition lane_of_bytes :: "nat list \<Rightarrow> 64 word" where
  "lane_of_bytes bs = foldr (\<lambda>b acc. word_of_nat b OR push_bit 8 acc) bs 0"

definition bytes_of_lane :: "64 word \<Rightarrow> nat list" where
  "bytes_of_lane w = map (\<lambda>k. unat (take_bit 8 (drop_bit (8 * k) w))) [0..<8]"

function chunks :: "nat \<Rightarrow> 'a list \<Rightarrow> 'a list list" where
  "chunks n xs = (if n = 0 \<or> xs = [] then [] else take n xs # chunks n (drop n xs))"
  by pat_completeness auto
termination
  by (relation "measure (\<lambda>(n, xs). length xs)") auto

declare chunks.simps [simp del]

definition keccak_pad :: "nat list \<Rightarrow> nat list" where
  "keccak_pad m =
     (let q = 136 - length m mod 136
      in if q = 1 then m @ [129] else m @ [1] @ replicate (q - 2) 0 @ [128])"

definition absorb :: "64 word list \<Rightarrow> nat list \<Rightarrow> 64 word list" where
  "absorb st block =
     keccak_f (map (\<lambda>(s, l). s XOR l)
        (zip st (map lane_of_bytes (chunks 8 block) @ replicate 8 0)))"

definition keccak256 :: "nat list \<Rightarrow> nat list" where
  "keccak256 m =
     take 32 (concat (map bytes_of_lane
        (foldl absorb (replicate 25 0) (chunks 136 (keccak_pad m)))))"

section \<open>The functions of ethers used by the verifier\<close>

text \<open>
  ethers (version 6) is a dependency of the repository; these are the functions the
  verifier and its test call, with their validation and their errors.
\<close>

fun hexPairs :: "string \<Rightarrow> nat list option" where
  \<comment> \<open>the bytes written by \<open>([0-9a-f][0-9a-f])*\<close>, matched case-insensitively\<close>
  "hexPairs [] = Some []"
| "hexPairs [c] = None"
| "hexPairs (c # d # r) =
     (if isHexDigit c \<and> isHexDigit d
      then map_option (\<lambda>bs. (16 * hexDigitValue c + hexDigitValue d) # bs) (hexPairs r)
      else None)"

definition getBytes :: "string \<Rightarrow> error + nat list" where
  \<comment> \<open>\<open>getBytes(value)\<close> on a string: it must match \<open>/^0x(?:[0-9a-f][0-9a-f])*$/i\<close>,
      where the flag \<open>i\<close> lets the prefix be \<open>0X\<close> too\<close>
  "getBytes v =
     (if startsWith v ''0x'' \<or> startsWith v ''0X''
      then (case hexPairs (drop 2 v) of None \<Rightarrow> Inl InvalidBytesLike | Some bs \<Rightarrow> Inr bs)
      else Inl InvalidBytesLike)"

definition byteHex :: "nat \<Rightarrow> string" where
  \<comment> \<open>\<open>HexCharacters[(v & 0xf0) >> 4] + HexCharacters[v & 0x0f]\<close>\<close>
  "byteHex v = [hexChar (v div 16), hexChar (v mod 16)]"

definition hexlify :: "nat list \<Rightarrow> string" where
  \<comment> \<open>\<open>hexlify(bytes)\<close>: two lowercase digits for each byte, after \<open>0x\<close>\<close>
  "hexlify bs = ''0x'' @ concat (map byteHex bs)"

definition toBeHex :: "int \<Rightarrow> error + string" where
  \<comment> \<open>\<open>toBeHex(value)\<close> with no width: \<open>getUint\<close> rejects a negative value; the
      hexadecimal digits are padded to an even number of them\<close>
  "toBeHex v =
     (if v < 0 then Inl InvalidNumericValue
      else let result = toString16 (nat v)
           in Inr (''0x'' @ (if odd (length result) then ''0'' @ result else result)))"

definition BigInt_of_hex :: "string \<Rightarrow> error + int" where
  \<comment> \<open>\<open>BigInt(s)\<close> on a hexadecimal literal, the only strings the source passes to it:
      \<open>0x\<close> alone is a \<open>SyntaxError\<close>\<close>
  "BigInt_of_hex s =
     (if startsWith s ''0x'' \<and> drop 2 s \<noteq> [] \<and> list_all isHexDigit (drop 2 s)
      then Inr (int (hexValue (drop 2 s)))
      else Inl BigIntError)"

definition nibbleAt :: "nat list \<Rightarrow> nat \<Rightarrow> nat" where
  \<comment> \<open>\<open>hashed[i >> 1] >> 4\<close> for an even \<open>i\<close>, \<open>hashed[i >> 1] & 0x0f\<close> for an odd one\<close>
  "nibbleAt hashed i =
     (if even i then (hashed ! (i div 2)) div 16 else (hashed ! (i div 2)) mod 16)"

definition getChecksumAddress :: "string \<Rightarrow> string" where
  \<comment> \<open>ethers' internal \<open>getChecksumAddress\<close>: the digits after \<open>0x\<close> in lower case, the
      first 40 of them hashed, and digit \<open>i < 40\<close> in upper case when nibble \<open>i\<close> of the
      hash is 8 or more. Its callers pass at least 40 digits.\<close>
  "getChecksumAddress addr =
     (let chars = drop 2 (toLowerCase addr);
          hashed = keccak256 (map of_char (take 40 chars))
      in ''0x'' @ map (\<lambda>(i, c). if i < 40 \<and> 8 \<le> nibbleAt hashed i then toUpperChar c else c)
                    (zip [0..<length chars] chars))"

definition isHexAddress :: "string \<Rightarrow> bool" where
  \<comment> \<open>\<open>/^(0x)?[0-9a-fA-F]{40}$/\<close>\<close>
  "isHexAddress a =
     ((length a = 40 \<and> list_all isHexDigit a) \<or>
      (length a = 42 \<and> startsWith a ''0x'' \<and> list_all isHexDigit (drop 2 a)))"

definition isMixedCase :: "string \<Rightarrow> bool" where
  \<comment> \<open>\<open>/([A-F].*[a-f])|([a-f].*[A-F])/\<close> on a string with no line terminator: a
      letter of each case occurs\<close>
  "isMixedCase a = (list_ex isUpperAF a \<and> list_ex isLowerAF a)"

definition isIcapAddress :: "string \<Rightarrow> bool" where
  \<comment> \<open>\<open>/^XE[0-9]{2}[0-9A-Za-z]{30,31}$/\<close>\<close>
  "isIcapAddress a =
     ((length a = 34 \<or> length a = 35) \<and> take 2 a = ''XE'' \<and>
      list_all isDigit (slice a 2 4) \<and> list_all isAlnum (drop 4 a))"

definition ibanLookup :: "char \<Rightarrow> string" where
  \<comment> \<open>a digit stands for itself, the letter \<open>A + i\<close> for the decimal \<open>10 + i\<close>\<close>
  "ibanLookup c =
     (if isDigit c then [c]
      else if isUpperAZ c then toString10 ((of_char c :: nat) - 55)
      else [])"

function ibanReduce :: "string \<Rightarrow> string" where
  \<comment> \<open>the loop of \<open>ibanChecksum\<close>: while 15 digits or more are left, the first 15 are
      replaced by their value modulo 97\<close>
  "ibanReduce expanded =
     (if 15 \<le> length expanded
      then ibanReduce (toString10 (decValue (take 15 expanded) mod 97) @ drop 15 expanded)
      else expanded)"
  by pat_completeness auto

termination
proof (relation "measure length")
  show "wf (measure length)"
    by simp
next
  fix expanded :: string
  assume long: "15 \<le> length expanded"
  define m where "m = decValue (take 15 expanded) mod 97"
  have "m < 97"
    by (simp add: m_def)
  then have "m div 10 < 10"
    by arith
  then have "length (toString10 m) \<le> 2"
    by (simp add: toString10.simps [of m] toString10.simps [of "m div 10"])
  with long show "(toString10 (decValue (take 15 expanded) mod 97) @ drop 15 expanded, expanded)
      \<in> measure length"
    by (simp add: m_def)
qed

declare ibanReduce.simps [simp del]

definition ibanChecksum :: "string \<Rightarrow> string" where
  \<comment> \<open>ethers' \<open>ibanChecksum\<close>: the country code and \<open>00\<close> moved behind the body,
      letters expanded to decimals, the remainder modulo 97 taken from 98\<close>
  "ibanChecksum addr =
     (let a = toUpperCase addr;
          b = drop 4 a @ take 2 a @ ''00'';
          expanded = ibanReduce (concat (map ibanLookup b));
          checksum = toString10 (98 - decValue expanded mod 97)
      in padStart 2 checksum)"

definition base36Value :: "char \<Rightarrow> nat" where
  "base36Value c = (if isDigit c then of_char c - 48 else of_char c - 87)"

definition fromBase36 :: "string \<Rightarrow> nat" where
  "fromBase36 v = foldl (\<lambda>result c. result * 36 + base36Value c) 0 (toLowerCase v)"

definition getAddress :: "string \<Rightarrow> error + string" where
  \<comment> \<open>\<open>ethers.getAddress\<close> on a string: 40 hexadecimal digits with or without \<open>0x\<close>
      (a text with letters of both cases must be its own checksum form), or an ICAP
      address; anything else is \<open>invalid address\<close>\<close>
  "getAddress a =
     (if isHexAddress a then
        (let addr = (if startsWith a ''0x'' then a else ''0x'' @ a);
             result = getChecksumAddress addr
         in if isMixedCase addr \<and> result \<noteq> addr then Inl BadAddressChecksum else Inr result)
      else if isIcapAddress a then
        (if slice a 2 4 \<noteq> ibanChecksum a then Inl BadIcapChecksum
         else Inr (getChecksumAddress (''0x'' @ padStart 40 (toString16 (fromBase36 (drop 4 a))))))
      else Inl InvalidAddress)"

section \<open>Values that cross the boundary to untyped collaborators\<close>

datatype js_value =
    JUndefined
  | JNull
  | JString string      \<comment> \<open>a primitive string\<close>
  | JPrimitive bool     \<comment> \<open>any other primitive (a number, a boolean, a bigint, a symbol),
                            with its truthiness; it has no string method\<close>
  | JObject "error + string \<times> int"
      \<comment> \<open>an object (a \<open>String\<close> object, or any object with methods of its own), with what
          \<open>decodeAgentRegistryRecord\<close> does when it calls \<open>startsWith\<close>, \<open>length\<close> and \<open>slice\<close>
          on it: the error thrown (a \<open>TypeError\<close> for a missing method), or the normalised
          address and the agent id of the record returned\<close>

definition truthy :: "js_value \<Rightarrow> bool" where
  \<comment> \<open>every object is truthy, the \<open>String\<close> object of the empty string too\<close>
  "truthy v =
     (case v of
        JUndefined \<Rightarrow> False
      | JNull \<Rightarrow> False
      | JString s \<Rightarrow> s \<noteq> []
      | JPrimitive t \<Rightarrow> t
      | JObject outcome \<Rightarrow> True)"

datatype numeric =
    Integral int   \<comment> \<open>a bigint, an integer number or a string that writes an integer\<close>
  | NotIntegral    \<comment> \<open>a value \<open>BigInt\<close> rejects: \<open>NaN\<close>, \<open>Infinity\<close>, \<open>1.5\<close>, \<open>"abc"\<close>\<close>

definition BigInt :: "numeric \<Rightarrow> error + int" where
  "BigInt v = (case v of Integral i \<Rightarrow> Inr i | NotIntegral \<Rightarrow> Inl BigIntError)"

definition getAddress_value :: "js_value \<Rightarrow> error + string" where
  \<comment> \<open>\<open>ethers.getAddress\<close> on any value: a value that is no string is an
      \<open>invalid address\<close>\<close>
  "getAddress_value v = (case v of JString s \<Rightarrow> getAddress s | _ \<Rightarrow> Inl InvalidAddress)"

section \<open>The verifier: \<open>utils/ens-verifier\<close>\<close>

datatype js_member =
    Undefined         \<comment> \<open>no such property\<close>
  | NumberValue int   \<comment> \<open>an own property of the table\<close>
  | Inherited         \<comment> \<open>a property of \<open>Object.prototype\<close>\<close>

definition objectPrototypeKeys :: "string list" where
  "objectPrototypeKeys =
     [''constructor'', ''hasOwnProperty'', ''isPrototypeOf'', ''propertyIsEnumerable'',
      ''toLocaleString'', ''toString'', ''valueOf'', ''__proto__'',
      ''__defineGetter__'', ''__defineSetter__'', ''__lookupGetter__'', ''__lookupSetter__'']"

definition CAIP_NAMESPACE_CODES :: "string \<Rightarrow> js_member" where
  \<comment> \<open>\<open>CAIP_NAMESPACE_CODES[key]\<close>: the table is the object literal \<open>{ eip155: 0x0000 }\<close>,
      and a property read on it falls back to \<open>Object.prototype\<close>\<close>
  "CAIP_NAMESPACE_CODES key =
     (if key = ''eip155'' then NumberValue 0
      else if key \<in> set objectPrototypeKeys then Inherited
      else Undefined)"

record AgentRegistryRecord =
  version :: int
  chainType :: int
  chainReference :: int
  address :: string
  agentId :: int

record InteropPayload =
  ip_version :: int
  ip_chainType :: string
  ip_chainReference :: string
  ip_address :: string

type_synonym interop = "InteropPayload \<Rightarrow> error + string"
  \<comment> \<open>\<open>InteropAddressProvider.buildFromPayload\<close> of the interop-addresses package\<close>

definition encode7930ChainIdentifierHex :: "interop \<Rightarrow> int \<Rightarrow> string \<Rightarrow> error + string" where
  "encode7930ChainIdentifierHex buildFromPayload chainId namespace =
     (if chainId < 0 then Inl NegativeChainReference
      else if CAIP_NAMESPACE_CODES namespace = Undefined then Inl (UnsupportedNamespace namespace)
      else
        (case toBeHex chainId of
           Inl e \<Rightarrow> Inl e
         | Inr hex \<Rightarrow>
             (case buildFromPayload
                     \<lparr>ip_version = 1, ip_chainType = namespace,
                      ip_chainReference = toLowerCase hex, ip_address = ''0x''\<rparr> of
                Inl e \<Rightarrow> Inl e
              | Inr payload \<Rightarrow> Inr (toLowerCase (drop 2 payload)))))"

definition buildAgentRegistryRecordKey :: "interop \<Rightarrow> numeric \<Rightarrow> string \<Rightarrow> error + string" where
  "buildAgentRegistryRecordKey buildFromPayload chainId namespace =
     (if CAIP_NAMESPACE_CODES namespace = Undefined then Inl (UnsupportedNamespace namespace)
      else
        (case BigInt chainId of
           Inl e \<Rightarrow> Inl e
         | Inr c \<Rightarrow>
             (case encode7930ChainIdentifierHex buildFromPayload c namespace of
                Inl e \<Rightarrow> Inl e
              | Inr chainIdentifierHex \<Rightarrow> Inr (''agent-registry:'' @ chainIdentifierHex))))"

definition decodeAgentRegistryRecord :: "string \<Rightarrow> error + AgentRegistryRecord" where
  "decodeAgentRegistryRecord valueHex =
     (if \<not> startsWith valueHex ''0x'' then Inl SegmentMustStartWith0x
      else if length valueHex < 42 + 2 then Inl ValueTooShort
      else
        (let addressText = slice valueHex 0 42;
             agentIdLengthHex = slice valueHex 42 (42 + 2)
         in case parseInt16 agentIdLengthHex of
              None \<Rightarrow> Inl InvalidAgentIdLength
            | Some agentIdLength \<Rightarrow>
                if agentIdLength < 0 then Inl InvalidAgentIdLength
                else
                  (let agentIdHex = toLowerCase (drop (42 + 2) valueHex)
                   in case getBytes (''0x'' @ agentIdHex) of
                        Inl e \<Rightarrow> Inl e
                      | Inr agentIdBytes \<Rightarrow>
                          if int (length agentIdBytes) \<noteq> agentIdLength
                          then Inl LengthDoesNotMatchPayload
                          else
                            (case (if length agentIdBytes = 0 then Inr 0
                                   else BigInt_of_hex (hexlify agentIdBytes)) of
                               Inl e \<Rightarrow> Inl e
                             | Inr agentId' \<Rightarrow>
                                 (case getAddress addressText of
                                    Inl e \<Rightarrow> Inl e
                                  | Inr normalizedAddress \<Rightarrow>
                                      Inr \<lparr>version = 1, chainType = 0, chainReference = 0,
                                           address = normalizedAddress, agentId = agentId'\<rparr>)))))"

definition encodeAgentRegistryRecord :: "string \<Rightarrow> int \<Rightarrow> error + string" where
  \<comment> \<open>the encoder of \<open>tests/verify-ens.test.ts\<close>; its \<open>chainId\<close> is not used, and
      \<open>BigInt(input.agentId)\<close> is the integer itself\<close>
  "encodeAgentRegistryRecord registryAddress agentId' =
     (case getAddress registryAddress of
        Inl e \<Rightarrow> Inl e
      | Inr addressText \<Rightarrow>
          (case toBeHex agentId' of
             Inl e \<Rightarrow> Inl e
           | Inr hex \<Rightarrow>
               (case getBytes hex of
                  Inl e \<Rightarrow> Inl e
                | Inr agentIdBytes \<Rightarrow>
                    (let agentIdHex = toLowerCase (drop 2 (hexlify agentIdBytes));
                         agentIdLengthHex = padStart 2 (toString16 (length agentIdBytes))
                     in Inr (addressText @ agentIdLengthHex @ agentIdHex)))))"

subsection \<open>The asynchronous part, with the calls it makes to its collaborators\<close>

text \<open>
  The provider, the resolver and the registry contract are objects of any shape. What
  the source can observe of them is the outcome of each call: it throws (or its promise
  rejects, or the method is missing, which is a \<open>TypeError\<close> at the call), or it returns a
  value. Each function returns its result together with the calls it made, in order.
\<close>

datatype text_outcome = TextThrows | TextReturns js_value

datatype resolver_outcome =
    ResolverThrows                           \<comment> \<open>\<open>getResolver\<close> throws\<close>
  | ResolverFalsy                            \<comment> \<open>\<open>getResolver\<close> returns \<open>null\<close> or another falsy value\<close>
  | Resolver "string \<Rightarrow> text_outcome"        \<comment> \<open>a resolver, with what its \<open>getText\<close> does\<close>

type_synonym provider = "string \<Rightarrow> resolver_outcome"

datatype registry_lookup =
    GetIdentityRegistryThrows   \<comment> \<open>\<open>sdk.getIdentityRegistry()\<close> throws\<close>
  | GetAddressThrows            \<comment> \<open>\<open>getAddress()\<close> of the contract throws\<close>
  | GetAddressReturns js_value

datatype call = GetResolver string | GetText string | GetIdentityRegistry | RegistryGetAddress

definition fetchAgentRegistryRecord :: "provider \<Rightarrow> string \<Rightarrow> string \<Rightarrow> js_value \<times> call list" where
  "fetchAgentRegistryRecord provider ensName recordKey =
     (let normalizedKey = toLowerCase recordKey
      in case provider ensName of
           ResolverThrows \<Rightarrow> (JNull, [GetResolver ensName])
         | ResolverFalsy \<Rightarrow> (JNull, [GetResolver ensName])
         | Resolver getText \<Rightarrow>
             (case getText normalizedKey of
                TextThrows \<Rightarrow> (JNull, [GetResolver ensName, GetText normalizedKey])
              | TextReturns text \<Rightarrow> (text, [GetResolver ensName, GetText normalizedKey])))"

definition decodeAgentRegistryRecord_value :: "js_value \<Rightarrow> error + AgentRegistryRecord" where
  \<comment> \<open>\<open>decodeAgentRegistryRecord\<close> called on a truthy value of any type: a primitive that
      is no string has no \<open>startsWith\<close>; on an object the methods of the object decide, and
      a record that is returned has the constant fields of the decoder\<close>
  "decodeAgentRegistryRecord_value v =
     (case v of
        JString s \<Rightarrow> decodeAgentRegistryRecord s
      | JObject outcome \<Rightarrow>
          (case outcome of
             Inl e \<Rightarrow> Inl e
           | Inr (normalizedAddress, agentId') \<Rightarrow>
               Inr \<lparr>version = 1, chainType = 0, chainReference = 0,
                    address = normalizedAddress, agentId = agentId'\<rparr>)
      | _ \<Rightarrow> Inl TypeError)"

definition loadAgentRegistryRecord ::
  "interop \<Rightarrow> provider \<Rightarrow> string \<Rightarrow> numeric \<Rightarrow> string
     \<Rightarrow> (error + AgentRegistryRecord option) \<times> call list" where
  \<comment> \<open>\<open>Inr None\<close> is the result \<open>null\<close>; \<open>Inl e\<close> is an exception that leaves the function\<close>
  "loadAgentRegistryRecord buildFromPayload provider ensName chainId namespace =
     (case buildAgentRegistryRecordKey buildFromPayload chainId namespace of
        Inl e \<Rightarrow> (Inl e, [])
      | Inr recordKey \<Rightarrow>
          (case fetchAgentRegistryRecord provider ensName recordKey of
             (value, calls) \<Rightarrow>
               if \<not> truthy value then (Inr None, calls)
               else
                 (case decodeAgentRegistryRecord_value value of
                    Inl e \<Rightarrow> (Inr None, calls)
                  | Inr decoded \<Rightarrow>
                      (case BigInt chainId of
                         Inl e \<Rightarrow> (Inr None, calls)
                       | Inr c \<Rightarrow> (Inr (Some (decoded\<lparr>chainReference := c\<rparr>)), calls)))))"

record ExpectedAgent =
  expectedChainId :: int
  expectedRegistryAddress :: js_value
  expectedAgentId :: int

definition recordMatchesAgent :: "AgentRegistryRecord \<Rightarrow> ExpectedAgent \<Rightarrow> error + bool" where
  "recordMatchesAgent record expected =
     (if version record \<noteq> 1 \<or> chainType record \<noteq> 0 then Inr False
      else if chainReference record \<noteq> expectedChainId expected then Inr False
      else
        (case getAddress_value (expectedRegistryAddress expected) of
           Inl e \<Rightarrow> Inl e
         | Inr a \<Rightarrow>
             if a \<noteq> address record then Inr False
             else if agentId record \<noteq> expectedAgentId expected then Inr False
             else Inr True))"

section \<open>The agent: \<open>core/agent\<close>\<close>

datatype EndpointType = MCP | A2A | ENS | DID | WALLET | OASF

record Endpoint =
  endpointType :: EndpointType
  endpointValue :: string

record RegistrationFile =
  registeredAgentId :: "string option"   \<comment> \<open>\<open>agentId?: AgentId\<close>\<close>
  endpoints :: "Endpoint list"

record SDK =
  sdkProvider :: provider             \<comment> \<open>\<open>sdk.web3Client.provider\<close>\<close>
  sdkIdentityRegistry :: registry_lookup  \<comment> \<open>\<open>sdk.getIdentityRegistry().getAddress()\<close>\<close>

type_synonym agentIdParser = "string \<Rightarrow> error + numeric \<times> numeric"
  \<comment> \<open>\<open>parseAgentId\<close> of \<open>utils/id-format\<close>: the error, or \<open>chainId\<close> and \<open>tokenId\<close>\<close>

definition ensEndpoint :: "RegistrationFile \<Rightarrow> string option" where
  "ensEndpoint rf = map_option endpointValue (find (\<lambda>e. endpointType e = ENS) (endpoints rf))"

definition falsyString :: "string option \<Rightarrow> bool" where
  \<comment> \<open>\<open>!s\<close> for a string or \<open>undefined\<close>\<close>
  "falsyString s = (case s of None \<Rightarrow> True | Some t \<Rightarrow> t = [])"

definition verifyENSName ::
  "agentIdParser \<Rightarrow> interop \<Rightarrow> SDK \<Rightarrow> RegistrationFile \<Rightarrow> (error + bool) \<times> call list" where
  \<comment> \<open>\<open>Inr b\<close>: the promise resolves to \<open>b\<close>; \<open>Inl e\<close>: it rejects with \<open>e\<close>\<close>
  "verifyENSName parseAgentId buildFromPayload sdk rf =
     (if falsyString (ensEndpoint rf) \<or> falsyString (registeredAgentId rf) then (Inr False, [])
      else
        (let ensName = the (ensEndpoint rf); agentId' = the (registeredAgentId rf)
         in case parseAgentId agentId' of
              Inl e \<Rightarrow> (Inr False, [])
            | Inr (tokenChainId, tokenId) \<Rightarrow>
                (case BigInt tokenChainId of
                   Inl e \<Rightarrow> (Inl e, [])
                 | Inr c \<Rightarrow>
                     (case loadAgentRegistryRecord buildFromPayload (sdkProvider sdk) ensName
                             (Integral c) ''eip155'' of
                        (Inl e, calls) \<Rightarrow> (Inl e, calls)
                      | (Inr None, calls) \<Rightarrow> (Inr False, calls)
                      | (Inr (Some record), calls) \<Rightarrow>
                          (case sdkIdentityRegistry sdk of
                             GetIdentityRegistryThrows \<Rightarrow>
                               (Inr False, calls @ [GetIdentityRegistry])
                           | GetAddressThrows \<Rightarrow>
                               (Inr False, calls @ [GetIdentityRegistry, RegistryGetAddress])
                           | GetAddressReturns registryAddress \<Rightarrow>
                               (case BigInt tokenId of
                                  Inl e \<Rightarrow> (Inl e, calls @ [GetIdentityRegistry, RegistryGetAddress])
                                | Inr t \<Rightarrow>
                                    (recordMatchesAgent record
                                       \<lparr>expectedChainId = c,
                                        expectedRegistryAddress = registryAddress,
                                        expectedAgentId = t\<rparr>,
                                     calls @ [GetIdentityRegistry, RegistryGetAddress])))))))"

section \<open>Collaborators that are not part of the sources at hand\<close>

definition parseAgentId :: agentIdParser where
  \<comment> \<open>Modelled from the spec: \<open>utils/id-format\<close> is not among the sources. The parser
      "turns a composite identifier string of the form \<open><chainId>:<tokenId>\<close> into its
      two integer parts"; an identifier of another form is unparsable.\<close>
  "parseAgentId s =
     (let a = takeWhile (\<lambda>c. c \<noteq> CHR '':'') s;
          b = drop 1 (dropWhile (\<lambda>c. c \<noteq> CHR '':'') s)
      in if a \<noteq> [] \<and> b \<noteq> [] \<and> list_all isDigit a \<and> list_all isDigit b
         then Inr (Integral (int (decValue a)), Integral (int (decValue b)))
         else Inl InvalidAgentId)"

definition buildFromPayload :: interop where
  \<comment> \<open>Modelled from the spec: the interop-addresses package is not among the sources. The
      chain-only envelope of ERC-7930 is the version (1, two bytes), the chain-type code
      (two bytes, \<open>0000\<close> for \<open>eip155\<close>), the chain reference with its length byte, and the
      length byte 0 of the absent address.\<close>
  "buildFromPayload p =
     (if ip_version p \<noteq> 1 \<or> ip_chainType p \<noteq> ''eip155'' \<or> ip_address p \<noteq> ''0x''
      then Inl LibraryError
      else
        (case getBytes (ip_chainReference p) of
           Inl e \<Rightarrow> Inl LibraryError
         | Inr bs \<Rightarrow>
             if 255 < length bs then Inl LibraryError
             else Inr (''0x0001'' @ ''0000'' @ padStart 2 (toString16 (length bs))
                       @ drop 2 (hexlify bs) @ ''00'')))"

section \<open>Notions the properties are stated with\<close>

fun minimalBigEndian :: "nat \<Rightarrow> nat list" where
  \<comment> \<open>the minimal big-endian encoding of a non-negative integer: no leading zero byte,
      and no byte at all for 0\<close>
  "minimalBigEndian n = (if n = 0 then [] else minimalBigEndian (n div 256) @ [n mod 256])"

declare minimalBigEndian.simps [simp del]

definition bytesValue :: "nat list \<Rightarrow> nat" where
  \<comment> \<open>the big-endian unsigned integer that a byte sequence writes\<close>
  "bytesValue bs = foldl (\<lambda>acc b. 256 * acc + b) 0 bs"

definition evenHex :: "nat \<Rightarrow> string" where
  \<comment> \<open>the digits of \<open>toBeHex\<close>: those of \<open>toString(16)\<close>, after a \<open>0\<close> when their number is odd\<close>
  "evenHex n = (let r = toString16 n in if odd (length r) then ''0'' @ r else r)"

section \<open>The mocks of \<open>tests/verify-ens.test.ts\<close>\<close>

text \<open>
  The test builds an agent with the identifier \<open>1:42\<close> and the ENS endpoint
  \<open>test-agent.eth\<close>, a resolver whose \<open>getText\<close> resolves to a fixed value, a provider
  whose \<open>getResolver\<close> resolves to that resolver (or to \<open>null\<close>), and a registry contract
  whose \<open>getAddress\<close> resolves to a fixed value.
\<close>

definition registrationFile :: RegistrationFile where
  "registrationFile =
     \<lparr>registeredAgentId = Some ''1:42'',
      endpoints = [\<lparr>endpointType = ENS, endpointValue = ''test-agent.eth''\<rparr>]\<rparr>"

definition createAgentWithResolver :: "js_value \<Rightarrow> js_value \<Rightarrow> SDK" where
  "createAgentWithResolver recordValue registryAddress =
     \<lparr>sdkProvider = (\<lambda>ensName. Resolver (\<lambda>key. TextReturns recordValue)),
      sdkIdentityRegistry = GetAddressReturns registryAddress\<rparr>"

definition sdkWithoutResolver :: "js_value \<Rightarrow> SDK" where
  "sdkWithoutResolver registryAddress =
     \<lparr>sdkProvider = (\<lambda>ensName. ResolverFalsy),
      sdkIdentityRegistry = GetAddressReturns registryAddress\<rparr>"

definition testRecord :: AgentRegistryRecord where
  "testRecord = \<lparr>version = 1, chainType = 0, chainReference = 1,
      address = ''0x1234567890123456789012345678901234567890'', agentId = 42\<rparr>"

definition testExpected :: ExpectedAgent where
  "testExpected = \<lparr>expectedChainId = 1,
      expectedRegistryAddress = JString ''0x1234567890123456789012345678901234567890'',
      expectedAgentId = 42\<rparr>"

section \<open>Characters and hexadecimal digits\<close>

lemma of_char_lower: "of_char (toLowerChar c) =
   (if (65 \<le> (of_char c :: nat) \<and> (of_char c :: nat) \<le> 90) \<or> (192 \<le> (of_char c :: nat) \<and> (of_char c :: nat) \<le> 222 \<and> (of_char c :: nat) \<noteq> 215)
    then (of_char c :: nat) + 32 else of_char c)"
  by (simp add: toLowerChar_def Let_def)

lemma of_char_upper: "of_char (toUpperChar c) =
   (if 97 \<le> (of_char c :: nat) \<and> (of_char c :: nat) \<le> 122 then (of_char c :: nat) - 32 else of_char c)"
  by (auto simp: toUpperChar_def isLowerAZ_def)

lemma isHexDigit_toLowerChar [simp]: "isHexDigit (toLowerChar c) = isHexDigit c"
  by (auto simp: isHexDigit_def isDigit_def isLowerAF_def isUpperAF_def of_char_lower)

lemma isHexDigit_toUpperChar [simp]: "isHexDigit (toUpperChar c) = isHexDigit c"
  by (auto simp: isHexDigit_def isDigit_def isLowerAF_def isUpperAF_def of_char_upper)

lemma hexDigitValue_toLowerChar [simp]: "isHexDigit c \<Longrightarrow> hexDigitValue (toLowerChar c) = hexDigitValue c"
  by (auto simp: hexDigitValue_def isHexDigit_def isDigit_def isLowerAF_def isUpperAF_def of_char_lower)

lemma hexDigitValue_toUpperChar [simp]: "isHexDigit c \<Longrightarrow> hexDigitValue (toUpperChar c) = hexDigitValue c"
  by (auto simp: hexDigitValue_def isHexDigit_def isDigit_def isLowerAF_def isUpperAF_def of_char_upper)

lemma toLowerChar_toUpperChar [simp]: "toLowerChar (toUpperChar c) = toLowerChar c"
  by (rule of_char_eqI [where ?'a = nat]) (auto simp: of_char_lower of_char_upper)

lemma toLowerChar_idem [simp]: "toLowerChar (toLowerChar c) = toLowerChar c"
  by (rule of_char_eqI [where ?'a = nat]) (auto simp: of_char_lower)

lemma not_upperAF_toLowerChar [simp]: "\<not> isUpperAF (toLowerChar c)"
  by (auto simp: isUpperAF_def of_char_lower)

lemma not_lowerAF_toUpperChar [simp]: "\<not> isLowerAF (toUpperChar c)"
  by (auto simp: isLowerAF_def of_char_upper)

lemma toLowerChar_digit [simp]: "isDigit c \<Longrightarrow> toLowerChar c = c"
  by (auto simp: isDigit_def toLowerChar_def)

lemma toUpperChar_digit [simp]: "isDigit c \<Longrightarrow> toUpperChar c = c"
  by (auto simp: isDigit_def toUpperChar_def isLowerAZ_def)

lemma hexChar_props:
  assumes "d < 16"
  shows "isHexDigit (hexChar d)" "hexDigitValue (hexChar d) = d" "toLowerChar (hexChar d) = hexChar d"
    "\<not> isWhiteSpace (hexChar d)" "hexChar d \<noteq> CHR ''-''" "hexChar d \<noteq> CHR ''+''"
    "hexChar d \<noteq> CHR ''x''" "hexChar d \<noteq> CHR ''X''" "\<not> isUpperAF (hexChar d)"
  using assms
  by (auto simp: hexChar_def isHexDigit_def isDigit_def isLowerAF_def isUpperAF_def
      hexDigitValue_def toLowerChar_def isWhiteSpace_def char_of_eq_iff take_bit_eq_mod)


lemma hexPairs_toLowerCase [simp]: "hexPairs (map toLowerChar p) = hexPairs p"
  by (induction p rule: hexPairs.induct) auto

lemma hexPairs_toUpperCase [simp]: "hexPairs (map toUpperChar p) = hexPairs p"
  by (induction p rule: hexPairs.induct) auto

lemma hexPairs_append:
  "hexPairs xs = Some bs \<Longrightarrow> hexPairs (xs @ ys) = map_option (\<lambda>cs. bs @ cs) (hexPairs ys)"
proof (induction xs arbitrary: bs rule: hexPairs.induct)
  case 1
  then show ?case by (simp add: option.map_ident)
next
  case (2 c)
  then show ?case by simp
next
  case (3 c d r)
  then show ?case
    by (cases "hexPairs ys") (auto split: if_splits)
qed

lemma hexPairs_length: "hexPairs p = Some bs \<Longrightarrow> length p = 2 * length bs"
  by (induction p arbitrary: bs rule: hexPairs.induct) (auto split: if_splits)

lemma hexPairs_hex: "hexPairs p = Some bs \<Longrightarrow> list_all isHexDigit p"
  by (induction p arbitrary: bs rule: hexPairs.induct) (auto split: if_splits)

lemma hexDigitValue_less: "isHexDigit c \<Longrightarrow> hexDigitValue c < 16"
  by (auto simp: hexDigitValue_def isHexDigit_def isDigit_def isLowerAF_def isUpperAF_def)

lemma hexPairs_bytes: "hexPairs p = Some bs \<Longrightarrow> list_all (\<lambda>b. b < 256) bs"
proof (induction p arbitrary: bs rule: hexPairs.induct)
  case (3 c d r)
  then show ?case
    using hexDigitValue_less [of c] hexDigitValue_less [of d]
    by (auto split: if_splits)
qed auto

lemma hexPairs_byteHex:
  "list_all (\<lambda>b. b < 256) bs \<Longrightarrow> hexPairs (concat (map byteHex bs)) = Some bs"
proof (induction bs)
  case Nil
  then show ?case by simp
next
  case (Cons b bs)
  then have "b div 16 < 16" "b mod 16 < 16"
    by auto
  with Cons show ?case
    by (simp add: byteHex_def hexChar_props)
qed

lemma hexValue_foldl:
  "foldl (\<lambda>acc c. 16 * acc + hexDigitValue c) a s = a * 16 ^ length s + hexValue s"
proof (induction s rule: rev_induct)
  case Nil
  then show ?case by (simp add: hexValue_def)
next
  case (snoc x xs)
  then show ?case by (simp add: hexValue_def algebra_simps)
qed

lemma hexValue_append: "hexValue (xs @ ys) = hexValue xs * 16 ^ length ys + hexValue ys"
  using hexValue_foldl [of "hexValue xs" ys] by (simp add: hexValue_def)

lemma hexValue_byteHex: "b < 256 \<Longrightarrow> hexValue (byteHex b) = b"
proof -
  assume "b < 256"
  then have "b div 16 < 16" "b mod 16 < 16"
    by auto
  then show ?thesis
    by (simp add: byteHex_def hexValue_def hexChar_props)
qed

lemma bytesValue_snoc: "bytesValue (bs @ [b]) = 256 * bytesValue bs + b"
  by (simp add: bytesValue_def)

lemma length_byteHex [simp]: "length (byteHex b) = 2"
  by (simp add: byteHex_def)

lemma hexValue_hexBytes:
  "list_all (\<lambda>b. b < 256) bs \<Longrightarrow> hexValue (concat (map byteHex bs)) = bytesValue bs"
proof (induction bs rule: rev_induct)
  case Nil
  then show ?case by (simp add: hexValue_def bytesValue_def)
next
  case (snoc b bs)
  then show ?case
    by (simp add: hexValue_append hexValue_byteHex bytesValue_snoc)
qed

lemma bytesValue_minimalBigEndian: "bytesValue (minimalBigEndian n) = n"
proof (induction n rule: minimalBigEndian.induct)
  case (1 n)
  show ?case
  proof (cases "n = 0")
    case True
    then show ?thesis
      by (simp add: minimalBigEndian.simps [of 0] bytesValue_def)
  next
    case False
    with 1 show ?thesis
      by (simp add: minimalBigEndian.simps [of n] bytesValue_snoc)
  qed
qed

lemma length_minimalBigEndian: "n < 256 ^ k \<Longrightarrow> length (minimalBigEndian n) \<le> k"
proof (induction n arbitrary: k rule: minimalBigEndian.induct)
  case (1 n)
  show ?case
  proof (cases "n = 0")
    case True
    then show ?thesis
      by (simp add: minimalBigEndian.simps [of 0])
  next
    case False
    with 1(2) obtain j where k: "k = Suc j"
      by (cases k) auto
    with 1(2) have "n div 256 < 256 ^ j"
      by (simp add: less_mult_imp_div_less)
    with 1(1) False have "length (minimalBigEndian (n div 256)) \<le> j"
      by simp
    with False k show ?thesis
      by (simp add: minimalBigEndian.simps [of n])
  qed
qed

section \<open>Integers as hexadecimal digits and as bytes\<close>

lemma toString16_small: "n < 16 \<Longrightarrow> toString16 n = [hexChar n]"
  by (simp add: toString16.simps [of n])

lemma toString16_step: "16 \<le> n \<Longrightarrow> toString16 n = toString16 (n div 16) @ [hexChar (n mod 16)]"
  by (simp add: toString16.simps [of n])

lemma toString16_byte:
  "16 \<le> n \<Longrightarrow> n < 256 \<Longrightarrow> toString16 n = [hexChar (n div 16), hexChar (n mod 16)]"
  by (simp add: toString16_step toString16_small less_mult_imp_div_less)

lemma toString16_step2:
  assumes "256 \<le> n"
  shows "toString16 n = toString16 (n div 256) @ [hexChar (n div 16 mod 16), hexChar (n mod 16)]"
proof -
  have "16 \<le> n div 16"
    using assms by auto
  moreover have "n div 16 div 16 = n div 256"
    by (simp add: div_mult2_eq [symmetric])
  ultimately show ?thesis
    using assms by (simp add: toString16_step [of n] toString16_step [of "n div 16"])
qed

lemma toString16_hex: "list_all (\<lambda>c. \<exists>d<16. c = hexChar d) (toString16 n)"
proof (induction n rule: toString16.induct)
  case (1 n)
  show ?case
  proof (cases "n < 16")
    case True
    then show ?thesis
      by (auto simp: toString16_small)
  next
    case False
    with 1 show ?thesis
      by (auto simp: toString16_step intro!: exI [of _ "n mod 16"])
  qed
qed


lemma hexChar_0: "hexChar 0 = CHR ''0''"
  by (simp add: hexChar_def char_of_eq_iff)

lemma zero_digit: "isHexDigit (CHR ''0'')" "hexDigitValue (CHR ''0'') = 0"
  by (simp_all add: isHexDigit_def isDigit_def hexDigitValue_def)

lemma minimalBigEndian_byte: "0 < n \<Longrightarrow> n < 256 \<Longrightarrow> minimalBigEndian n = [n]"
  by (simp add: minimalBigEndian.simps [of n] minimalBigEndian.simps [of 0])

lemma hexPairs_evenHex:
  "hexPairs (evenHex n) = Some (if n = 0 then [0] else minimalBigEndian n)"
proof (induction n rule: less_induct)
  case (less n)
  consider "n < 16" | "16 \<le> n" "n < 256" | "256 \<le> n"
    by linarith
  then show ?case
  proof cases
    case 1
    then have "evenHex n = [CHR ''0'', hexChar n]"
      by (simp add: evenHex_def toString16_small)
    then have "hexPairs (evenHex n) = Some [n]"
      using 1 by (simp add: zero_digit hexChar_props)
    then show ?thesis
      using 1 by (simp add: minimalBigEndian_byte)
  next
    case 2
    then have d: "n div 16 < 16" "n mod 16 < 16"
      by auto
    from 2 have "evenHex n = [hexChar (n div 16), hexChar (n mod 16)]"
      by (simp add: evenHex_def toString16_byte)
    then have "hexPairs (evenHex n) = Some [n]"
      using d by (simp add: hexChar_props)
    then show ?thesis
      using 2 by (simp add: minimalBigEndian_byte)
  next
    case 3
    then have pos: "n div 256 \<noteq> 0" "n div 256 < n"
      by auto
    have d: "n div 16 mod 16 < 16" "n mod 16 < 16"
      by auto
    have ev: "evenHex n = evenHex (n div 256) @ [hexChar (n div 16 mod 16), hexChar (n mod 16)]"
      using 3 by (simp add: evenHex_def toString16_step2 Let_def)
    have m: "16 * (n div 16 mod 16) + n mod 16 = n mod 256"
      using mod_mult2_eq [of n 16 16] by simp
    have "hexPairs (evenHex (n div 256)) = Some (minimalBigEndian (n div 256))"
      using less(1) [OF pos(2)] pos(1) by simp
    then have "hexPairs (evenHex n) = Some (minimalBigEndian (n div 256) @ [n mod 256])"
      using d m by (simp add: ev hexPairs_append hexChar_props)
    then show ?thesis
      using 3 by (simp add: minimalBigEndian.simps [of n])
  qed
qed

lemma toBeHex_nonneg: "0 \<le> v \<Longrightarrow> toBeHex v = Inr (''0x'' @ evenHex (nat v))"
  by (simp add: toBeHex_def evenHex_def Let_def)

lemma getBytes_evenHex:
  "getBytes (''0x'' @ evenHex n) = Inr (if n = 0 then [0] else minimalBigEndian n)"
  by (simp add: getBytes_def startsWith_def hexPairs_evenHex)

section \<open>The length field and the checksum address\<close>

lemma hexDigit_not_special:
  assumes "isHexDigit c"
  shows "\<not> isWhiteSpace c" "c \<noteq> CHR ''-''" "c \<noteq> CHR ''+''" "c \<noteq> CHR ''x''" "c \<noteq> CHR ''X''"
  using assms
  by (auto simp: isHexDigit_def isDigit_def isLowerAF_def isUpperAF_def isWhiteSpace_def)

lemma parseInt16_two:
  assumes "isHexDigit c1" "isHexDigit c2"
  shows "parseInt16 [c1, c2] = Some (int (16 * hexDigitValue c1 + hexDigitValue c2))"
  using assms hexDigit_not_special [OF assms(1)] hexDigit_not_special [OF assms(2)]
  by (simp add: parseInt16_def hexValue_def)

lemma lengthField_small: "k < 16 \<Longrightarrow> padStart 2 (toString16 k) = [CHR ''0'', hexChar k]"
  by (simp add: padStart_def toString16_small)

lemma lengthField_byte:
  "16 \<le> k \<Longrightarrow> k < 256 \<Longrightarrow> padStart 2 (toString16 k) = [hexChar (k div 16), hexChar (k mod 16)]"
  by (simp add: padStart_def toString16_byte)

lemma lengthField:
  assumes "k < 256"
  shows "length (padStart 2 (toString16 k)) = 2"
    and "parseInt16 (padStart 2 (toString16 k)) = Some (int k)"
    and "hexValue (padStart 2 (toString16 k)) = k"
proof -
  have d: "k div 16 < 16" "k mod 16 < 16"
    using assms by auto
  show "length (padStart 2 (toString16 k)) = 2"
    using assms by (cases "k < 16") (simp_all add: lengthField_small lengthField_byte)
  show "parseInt16 (padStart 2 (toString16 k)) = Some (int k)"
    using assms d
    by (cases "k < 16")
      (simp_all add: lengthField_small lengthField_byte parseInt16_two zero_digit hexChar_props)
  show "hexValue (padStart 2 (toString16 k)) = k"
    using assms d
    by (cases "k < 16")
      (simp_all add: lengthField_small lengthField_byte hexValue_def zero_digit hexChar_props)
qed

lemma map_zip_upt_id:
  assumes "\<And>i. i < length cs \<Longrightarrow> f (i, cs ! i) = cs ! i"
  shows "map f (zip [0..<length cs] cs) = cs"
  using assms by (intro nth_equalityI) simp_all

lemma length_getChecksumAddress: "length (getChecksumAddress a) = 2 + (length a - 2)"
  by (simp add: getChecksumAddress_def Let_def toLowerCase_def)

lemma getChecksumAddress_prefix: "take 2 (getChecksumAddress a) = ''0x''"
  by (simp add: getChecksumAddress_def Let_def)

lemma getChecksumAddress_cong:
  "drop 2 (toLowerCase a) = drop 2 (toLowerCase b) \<Longrightarrow> getChecksumAddress a = getChecksumAddress b"
  by (simp add: getChecksumAddress_def)

lemma lower_getChecksumAddress:
  "drop 2 (toLowerCase (getChecksumAddress a)) = drop 2 (toLowerCase a)"
proof -
  define chars where "chars = drop 2 (toLowerCase a)"
  define F where "F = (\<lambda>(i :: nat, c).
    if i < 40 \<and> 8 \<le> nibbleAt (keccak256 (map of_char (take 40 chars))) i
    then toUpperChar c else c)"
  have g: "getChecksumAddress a = ''0x'' @ map F (zip [0..<length chars] chars)"
    unfolding getChecksumAddress_def Let_def chars_def F_def ..
  have low: "toLowerChar (chars ! i) = chars ! i" if "i < length chars" for i
    using that by (simp add: chars_def toLowerCase_def)
  have "map toLowerChar (map F (zip [0..<length chars] chars)) = chars"
    by (intro nth_equalityI) (simp_all add: F_def low)
  then have "drop 2 (toLowerCase (''0x'' @ map F (zip [0..<length chars] chars))) = chars"
    by (simp add: toLowerCase_def)
  then show ?thesis
    by (simp only: g chars_def)
qed

lemma getChecksumAddress_idem: "getChecksumAddress (getChecksumAddress a) = getChecksumAddress a"
  by (rule getChecksumAddress_cong) (rule lower_getChecksumAddress)

lemma getChecksumAddress_hex:
  assumes "list_all isHexDigit (drop 2 a)"
  shows "list_all isHexDigit (drop 2 (getChecksumAddress a))"
proof -
  have "list_all isHexDigit (drop 2 (toLowerCase a))"
    using assms by (simp add: toLowerCase_def drop_map list_all_iff)
  then show ?thesis
    by (auto simp: getChecksumAddress_def Let_def list_all_iff dest!: set_zip_rightD)
qed

lemma getChecksumAddress_digits:
  assumes "list_all isDigit h"
  shows "getChecksumAddress (''0x'' @ h) = ''0x'' @ h"
proof -
  have low: "map toLowerChar h = h"
    using assms by (intro map_idI) (simp add: list_all_iff)
  have "map (\<lambda>(i, c). if i < 40 \<and> 8 \<le> nibbleAt hs i then toUpperChar c else c)
          (zip [0..<length h] h) = h" for hs
    using assms by (intro map_zip_upt_id) (simp add: list_all_length)
  then show ?thesis
    by (simp add: getChecksumAddress_def Let_def toLowerCase_def low)
qed

lemma startsWith_0x: "startsWith a ''0x'' \<longleftrightarrow> take 2 a = ''0x''"
  by (simp add: startsWith_def numeral_2_eq_2)

lemma startsWith_0x_decomp: "startsWith a ''0x'' \<Longrightarrow> a = CHR ''0'' # CHR ''x'' # drop 2 a"
  using append_take_drop_id [of 2 a] by (simp add: startsWith_0x)

lemma isHexAddress_prefixed:
  "isHexAddress (CHR ''0'' # CHR ''x'' # h) \<longleftrightarrow> length h = 40 \<and> list_all isHexDigit h"
  by (auto simp: isHexAddress_def startsWith_def isHexDigit_def isDigit_def isLowerAF_def
      isUpperAF_def)

lemma isMixedCase_prefixed: "isMixedCase (CHR ''0'' # CHR ''x'' # h) = isMixedCase h"
  by (simp add: isMixedCase_def isUpperAF_def isLowerAF_def)

lemma getAddress_prefixed:
  assumes "length h = 40" "list_all isHexDigit h"
  shows "getAddress (CHR ''0'' # CHR ''x'' # h) =
    (if isMixedCase h \<and> getChecksumAddress (CHR ''0'' # CHR ''x'' # h) \<noteq> CHR ''0'' # CHR ''x'' # h then Inl BadAddressChecksum
     else Inr (getChecksumAddress (CHR ''0'' # CHR ''x'' # h)))"
  using assms
  by (simp add: getAddress_def isHexAddress_prefixed isMixedCase_prefixed startsWith_def Let_def)

lemma getAddress_checksummed:
  assumes "length h = 40" "list_all isHexDigit h"
  shows "getAddress (getChecksumAddress (CHR ''0'' # CHR ''x'' # h)) = Inr (getChecksumAddress (CHR ''0'' # CHR ''x'' # h))"
proof -
  define c where "c = getChecksumAddress (CHR ''0'' # CHR ''x'' # h)"
  have "take 2 c = ''0x''"
    by (simp add: c_def getChecksumAddress_prefix)
  then have c: "c = CHR ''0'' # CHR ''x'' # drop 2 c"
    using append_take_drop_id [of 2 c] by simp
  have len: "length (drop 2 c) = 40"
    using assms by (simp add: c_def length_getChecksumAddress)
  have hex: "list_all isHexDigit (drop 2 c)"
    unfolding c_def using assms by (intro getChecksumAddress_hex) simp
  have "getChecksumAddress (CHR ''0'' # CHR ''x'' # drop 2 c) = CHR ''0'' # CHR ''x'' # drop 2 c"
    using c getChecksumAddress_idem [of "CHR ''0'' # CHR ''x'' # h"] by (simp add: c_def [symmetric])
  then have "getAddress (CHR ''0'' # CHR ''x'' # drop 2 c) = Inr (CHR ''0'' # CHR ''x'' # drop 2 c)"
    using len hex by (simp add: getAddress_prefixed)
  then show ?thesis
    using c by (simp add: c_def [symmetric])
qed

lemma toString16_isHexDigit: "list_all isHexDigit (toString16 n)"
  using toString16_hex [of n] by (auto simp: list_all_iff hexChar_props)

lemma getAddress_result:
  assumes "getAddress a = Inr c"
  shows "\<exists>h. c = getChecksumAddress (CHR ''0'' # CHR ''x'' # h) \<and> list_all isHexDigit h \<and> 40 \<le> length h"
proof (cases "isHexAddress a")
  case True
  show ?thesis
  proof (cases "startsWith a ''0x''")
    case p: True
    then have a: "a = CHR ''0'' # CHR ''x'' # drop 2 a"
      by (rule startsWith_0x_decomp)
    from True p have "length (drop 2 a) = 40 \<and> list_all isHexDigit (drop 2 a)"
      using isHexAddress_prefixed [of "drop 2 a"] a by simp
    moreover from assms True p have "c = getChecksumAddress a"
      by (auto simp: getAddress_def Let_def split: if_splits)
    ultimately show ?thesis
      using a by (intro exI [of _ "drop 2 a"]) simp
  next
    case np: False
    with True have "length a = 40 \<and> list_all isHexDigit a"
      by (auto simp: isHexAddress_def)
    moreover from assms True np have "c = getChecksumAddress (CHR ''0'' # CHR ''x'' # a)"
      by (auto simp: getAddress_def Let_def split: if_splits)
    ultimately show ?thesis
      by (intro exI [of _ a]) simp
  qed
next
  case False
  with assms have c: "c = getChecksumAddress (CHR ''0'' # CHR ''x'' # padStart 40 (toString16 (fromBase36 (drop 4 a))))"
    by (auto simp: getAddress_def split: if_splits)
  have "list_all isHexDigit (padStart 40 (toString16 (fromBase36 (drop 4 a))))"
    using toString16_isHexDigit [of "fromBase36 (drop 4 a)"]
    by (auto simp: padStart_def list_all_iff zero_digit)
  moreover have "40 \<le> length (padStart 40 (toString16 (fromBase36 (drop 4 a))))"
    by (simp add: padStart_def)
  ultimately show ?thesis
    using c by blast
qed

lemma getAddress_idem:
  assumes "getAddress a = Inr c" "length c = 42"
  shows "getAddress c = Inr c" "take 2 c = ''0x''"
proof -
  from getAddress_result [OF assms(1)] obtain h
    where h: "c = getChecksumAddress (CHR ''0'' # CHR ''x'' # h)" "list_all isHexDigit h" "40 \<le> length h"
    by blast
  with assms(2) have "length h = 40"
    by (simp add: length_getChecksumAddress)
  with h show "getAddress c = Inr c"
    by (simp add: getAddress_checksummed)
  from h show "take 2 c = ''0x''"
    by (simp add: getChecksumAddress_prefix)
qed

section \<open>Decoding a value of known structure\<close>

lemma BigInt_of_hex_hexlify:
  assumes "bs \<noteq> []" "list_all (\<lambda>b. b < 256) bs"
  shows "BigInt_of_hex (hexlify bs) = Inr (int (bytesValue bs))"
proof -
  have "concat (map byteHex bs) \<noteq> []"
    using assms(1) by (cases bs) (simp_all add: byteHex_def)
  moreover have "list_all isHexDigit (concat (map byteHex bs))"
    using hexPairs_hex [OF hexPairs_byteHex [OF assms(2)]] .
  ultimately show ?thesis
    using assms(2) by (simp add: BigInt_of_hex_def hexlify_def startsWith_0x hexValue_hexBytes)
qed

lemma decode_structured:
  assumes "length a = 42" "take 2 a = ''0x''" "length lf = 2" "parseInt16 lf = Some k"
    and "hexPairs (toLowerCase p) = Some bs"
  shows "decodeAgentRegistryRecord (a @ lf @ p) =
    (if k < 0 then Inl InvalidAgentIdLength
     else if int (length bs) \<noteq> k then Inl LengthDoesNotMatchPayload
     else case getAddress a of
            Inl e \<Rightarrow> Inl e
          | Inr na \<Rightarrow> Inr \<lparr>version = 1, chainType = 0, chainReference = 0, address = na,
                         agentId = int (bytesValue bs)\<rparr>)"
proof -
  have s: "startsWith (a @ lf @ p) ''0x''"
    using assms(1,2) by (simp add: startsWith_0x)
  have sl: "slice (a @ lf @ p) 0 42 = a" "slice (a @ lf @ p) 42 44 = lf" "drop 44 (a @ lf @ p) = p"
    using assms(1,3) by (simp_all add: slice_def)
  have gb: "getBytes (CHR ''0'' # CHR ''x'' # toLowerCase p) = Inr bs"
    using assms(5) by (simp add: getBytes_def startsWith_0x)
  have big: "bs \<noteq> [] \<Longrightarrow> BigInt_of_hex (hexlify bs) = Inr (int (bytesValue bs))"
    using hexPairs_bytes [OF assms(5)] by (simp add: BigInt_of_hex_hexlify)
  have nil: "bytesValue [] = 0"
    by (simp add: bytesValue_def)
  show ?thesis
    using assms(1,3,4)
    by (cases "bs = []")
      (simp_all add: decodeAgentRegistryRecord_def s sl gb big nil Let_def split: sum.split)
qed

lemma decode_unparsable_length:
  assumes "startsWith v ''0x''" "44 \<le> length v"
    and "parseInt16 (slice v 42 44) = None \<or> (\<exists>k<0. parseInt16 (slice v 42 44) = Some k)"
  shows "decodeAgentRegistryRecord v = Inl InvalidAgentIdLength"
  using assms by (auto simp: decodeAgentRegistryRecord_def Let_def)

lemma getAddress_digits:
  assumes "length h = 40" "list_all isDigit h"
  shows "getAddress (CHR ''0'' # CHR ''x'' # h) = Inr (CHR ''0'' # CHR ''x'' # h)"
proof -
  have "list_all isHexDigit h"
    using assms(2) by (simp add: list_all_iff isHexDigit_def)
  then show ?thesis
    using assms getChecksumAddress_digits [of h] by (simp add: getAddress_prefixed)
qed


section \<open>The encoder of the test\<close>

lemma agentIdBytes_props:
  assumes "0 \<le> n" "n < 2 ^ 2040"
  defines "bs \<equiv> (if n = 0 then [0] else minimalBigEndian (nat n))"
  shows "length bs < 256" "list_all (\<lambda>b. b < 256) bs" "bs \<noteq> []" "int (bytesValue bs) = n"
proof -
  have "nat n < 256 ^ 255"
    using assms(1,2) by (simp add: nat_less_iff)
  then have "length (minimalBigEndian (nat n)) \<le> 255"
    by (rule length_minimalBigEndian)
  then show "length bs < 256"
    by (simp add: bs_def)
  have "hexPairs (evenHex (nat n)) = Some bs"
    using assms(1) by (simp add: hexPairs_evenHex bs_def)
  then show "list_all (\<lambda>b. b < 256) bs"
    by (rule hexPairs_bytes)
  show "bs \<noteq> []"
    using assms(1) by (auto simp: bs_def minimalBigEndian.simps [of "nat n"])
  show "int (bytesValue bs) = n"
  proof (cases "n = 0")
    case True
    then show ?thesis
      by (simp add: bs_def bytesValue_def)
  next
    case False
    then show ?thesis
      using assms(1) by (simp add: bs_def bytesValue_minimalBigEndian)
  qed
qed

lemma toLowerCase_byteHex:
  "list_all (\<lambda>b. b < 256) bs \<Longrightarrow> toLowerCase (concat (map byteHex bs)) = concat (map byteHex bs)"
proof (induction bs)
  case Nil
  then show ?case by (simp add: toLowerCase_def)
next
  case (Cons b bs)
  then have "b div 16 < 16" "b mod 16 < 16"
    by auto
  with Cons show ?case
    by (simp add: toLowerCase_def byteHex_def hexChar_props)
qed

lemma encode_value:
  assumes "getAddress a = Inr c" "0 \<le> n" "n < 2 ^ 2040"
  defines "bs \<equiv> (if n = 0 then [0] else minimalBigEndian (nat n))"
  shows "encodeAgentRegistryRecord a n =
    Inr (c @ padStart 2 (toString16 (length bs)) @ concat (map byteHex bs))"
proof -
  have b: "list_all (\<lambda>b. b < 256) bs"
    unfolding bs_def using assms(2,3) by (rule agentIdBytes_props)
  have g: "getBytes (CHR ''0'' # CHR ''x'' # evenHex (nat n)) = Inr bs"
    using getBytes_evenHex [of "nat n"] assms(2) by (simp add: bs_def)
  show ?thesis
    using assms(1,2) toLowerCase_byteHex [OF b]
    by (simp add: encodeAgentRegistryRecord_def toBeHex_nonneg g hexlify_def Let_def)
qed

section \<open>Decoding, case by case\<close>

lemma decode_unfold:
  "decodeAgentRegistryRecord s =
    (if \<not> startsWith s ''0x'' then Inl SegmentMustStartWith0x
     else if length s < 44 then Inl ValueTooShort
     else case parseInt16 (slice s 42 44) of
            None \<Rightarrow> Inl InvalidAgentIdLength
          | Some k \<Rightarrow>
              if k < 0 then Inl InvalidAgentIdLength
              else case hexPairs (toLowerCase (drop 44 s)) of
                     None \<Rightarrow> Inl InvalidBytesLike
                   | Some bs \<Rightarrow>
                       if int (length bs) \<noteq> k then Inl LengthDoesNotMatchPayload
                       else case getAddress (slice s 0 42) of
                              Inl e \<Rightarrow> Inl e
                            | Inr na \<Rightarrow>
                                Inr \<lparr>version = 1, chainType = 0, chainReference = 0,
                                     address = na, agentId = int (bytesValue bs)\<rparr>)"
proof (cases "hexPairs (toLowerCase (drop 44 s))")
  case None
  then show ?thesis
    by (simp add: decodeAgentRegistryRecord_def getBytes_def startsWith_0x Let_def
        split: option.split)
next
  case (Some bs)
  have big: "bs \<noteq> [] \<Longrightarrow> BigInt_of_hex (hexlify bs) = Inr (int (bytesValue bs))"
    using hexPairs_bytes [OF Some] by (simp add: BigInt_of_hex_hexlify)
  have nil: "bytesValue [] = 0"
    by (simp add: bytesValue_def)
  show ?thesis
    by (cases "bs = []")
      (simp_all add: decodeAgentRegistryRecord_def getBytes_def startsWith_0x Let_def Some big nil
        split: option.split sum.split)
qed

lemma decode_malformed:
  assumes "\<not> startsWith s ''0x'' \<or> length s < 44 \<or>
    parseInt16 (slice s 42 44) = None \<or>
    (\<exists>k<0. parseInt16 (slice s 42 44) = Some k) \<or>
    hexPairs (toLowerCase (drop 44 s)) = None \<or>
    (\<exists>k bs. parseInt16 (slice s 42 44) = Some k \<and>
       hexPairs (toLowerCase (drop 44 s)) = Some bs \<and> int (length bs) \<noteq> k) \<or>
    (\<exists>e. getAddress (slice s 0 42) = Inl e)"
  shows "\<exists>e. decodeAgentRegistryRecord s = Inl e"
proof -
  have "\<exists>e. decodeAgentRegistryRecord s = Inl e \<or> (\<exists>r. decodeAgentRegistryRecord s = Inr r)"
    by (cases "decodeAgentRegistryRecord s") auto
  moreover have False if r: "decodeAgentRegistryRecord s = Inr r" for r
  proof -
    from r have 1: "startsWith s ''0x''" "\<not> length s < 44"
      by (auto simp: decode_unfold split: if_splits)
    with r obtain k where k: "parseInt16 (slice s 42 44) = Some k" "\<not> k < 0"
      by (auto simp: decode_unfold split: if_splits option.splits)
    with r 1 obtain bs where bs: "hexPairs (toLowerCase (drop 44 s)) = Some bs" "int (length bs) = k"
      by (auto simp: decode_unfold split: if_splits option.splits)
    with r 1 k obtain na where "getAddress (slice s 0 42) = Inr na"
      by (auto simp: decode_unfold split: if_splits sum.splits)
    with 1 k bs assms show False
      by auto
  qed
  ultimately show ?thesis
    by (cases "decodeAgentRegistryRecord s") auto
qed

lemma decode_hex_address:
  assumes "length h = 40" "list_all isHexDigit h" "length lf = 2"
    and "parseInt16 lf = Some (int (length bs))" "hexPairs (toLowerCase p) = Some bs"
  shows "decodeAgentRegistryRecord (CHR ''0'' # CHR ''x'' # h @ lf @ p) =
    (if isMixedCase h \<and> getChecksumAddress (CHR ''0'' # CHR ''x'' # h) \<noteq> CHR ''0'' # CHR ''x'' # h
     then Inl BadAddressChecksum
     else Inr \<lparr>version = 1, chainType = 0, chainReference = 0,
               address = getChecksumAddress (CHR ''0'' # CHR ''x'' # h),
               agentId = int (bytesValue bs)\<rparr>)"
  using decode_structured [of "CHR ''0'' # CHR ''x'' # h" lf "int (length bs)" p bs] assms
  by (simp add: getAddress_prefixed)

lemma not_mixed_lower: "\<not> isMixedCase (toLowerCase h)"
  by (simp add: isMixedCase_def toLowerCase_def list_ex_iff)

lemma not_mixed_upper: "\<not> isMixedCase (toUpperCase h)"
  by (simp add: isMixedCase_def toUpperCase_def list_ex_iff)

lemma checksum_lower:
  "getChecksumAddress (CHR ''0'' # CHR ''x'' # toLowerCase h) = getChecksumAddress (CHR ''0'' # CHR ''x'' # h)"
  by (rule getChecksumAddress_cong) (simp add: toLowerCase_def)

lemma checksum_upper:
  "getChecksumAddress (CHR ''0'' # CHR ''x'' # toUpperCase h) = getChecksumAddress (CHR ''0'' # CHR ''x'' # h)"
  by (rule getChecksumAddress_cong) (simp add: toLowerCase_def toUpperCase_def)

section \<open>The key builder\<close>

lemma buildKey_Integral:
  "buildAgentRegistryRecordKey bfp chainId ns = Inr key \<Longrightarrow> \<exists>c. chainId = Integral c \<and> 0 \<le> c"
  by (cases chainId)
    (auto simp: buildAgentRegistryRecordKey_def BigInt_def encode7930ChainIdentifierHex_def
      split: if_splits sum.splits)

lemma toLowerCase_no_upper: "\<not> list_ex isUpperAZ (toLowerCase s)"
  by (induction s) (auto simp: toLowerCase_def isUpperAZ_def of_char_lower)

lemma buildKey_eip155:
  assumes "0 \<le> c"
  shows "buildAgentRegistryRecordKey bfp (Integral c) ''eip155'' =
    (case bfp \<lparr>ip_version = 1, ip_chainType = ''eip155'',
               ip_chainReference = ''0x'' @ evenHex (nat c), ip_address = ''0x''\<rparr> of
       Inl e \<Rightarrow> Inl e
     | Inr payload \<Rightarrow> Inr (''agent-registry:'' @ toLowerCase (drop 2 payload)))"
proof -
  have "map toLowerChar (toString16 (nat c)) = toString16 (nat c)"
    using toString16_hex [of "nat c"] by (intro map_idI) (auto simp: list_all_iff hexChar_props)
  then have "map toLowerChar (evenHex (nat c)) = evenHex (nat c)"
    by (simp add: evenHex_def Let_def toLowerChar_def)
  then have "toLowerCase (CHR ''0'' # CHR ''x'' # evenHex (nat c)) = CHR ''0'' # CHR ''x'' # evenHex (nat c)"
    by (simp add: toLowerCase_def toLowerChar_def)
  then show ?thesis
    using assms
    by (simp add: buildAgentRegistryRecordKey_def encode7930ChainIdentifierHex_def
        CAIP_NAMESPACE_CODES_def BigInt_def toBeHex_nonneg split: sum.split)
qed

lemma buildKey_unknown_namespace:
  assumes "CAIP_NAMESPACE_CODES ns = Undefined"
  shows "buildAgentRegistryRecordKey bfp chainId ns = Inl (UnsupportedNamespace ns)"
    and "\<exists>e. encode7930ChainIdentifierHex bfp c ns = Inl e"
  using assms
  by (simp_all add: buildAgentRegistryRecordKey_def encode7930ChainIdentifierHex_def)

lemma buildKey_negative:
  assumes "c < 0"
  shows "\<exists>e. buildAgentRegistryRecordKey bfp (Integral c) ns = Inl e"
  using assms
  by (simp add: buildAgentRegistryRecordKey_def encode7930ChainIdentifierHex_def BigInt_def)

section \<open>Fetching and loading\<close>

lemma fetch_no_resolver:
  "provider ensName = ResolverFalsy \<or> provider ensName = ResolverThrows \<Longrightarrow>
     fetchAgentRegistryRecord provider ensName key = (JNull, [GetResolver ensName])"
  by (auto simp: fetchAgentRegistryRecord_def Let_def)

lemma load_no_resolver:
  assumes "provider ensName = ResolverFalsy \<or> provider ensName = ResolverThrows"
  shows "loadAgentRegistryRecord bfp provider ensName chainId ns =
    (case buildAgentRegistryRecordKey bfp chainId ns of
       Inl e \<Rightarrow> (Inl e, [])
     | Inr key \<Rightarrow> (Inr None, [GetResolver ensName]))"
  by (simp add: loadAgentRegistryRecord_def fetch_no_resolver [of provider ensName, OF assms]
      truthy_def split: sum.split)

section \<open>The test scenario, evaluated\<close>

lemma getAddress_test:
  "getAddress ''0x1234567890123456789012345678901234567890''
      = Inr ''0x1234567890123456789012345678901234567890''"
  by (rule getAddress_digits) (simp_all add: isDigit_def)

lemma getAddress_unprefixed:
  "getAddress ''1234567890123456789012345678901234567890''
      = Inr ''0x1234567890123456789012345678901234567890''"
proof -
  have d: "list_all isDigit ''1234567890123456789012345678901234567890''"
    by (simp add: isDigit_def)
  then have "isHexAddress ''1234567890123456789012345678901234567890''"
    by (simp add: isHexAddress_def isHexDigit_def)
  moreover have "\<not> startsWith ''1234567890123456789012345678901234567890'' ''0x''"
    by (simp add: startsWith_0x)
  ultimately show ?thesis
    using getChecksumAddress_digits [OF d]
    by (simp add: getAddress_def Let_def)
qed

lemma getAddress_other:
  "getAddress ''0x0000000000000000000000000000000000000001''
      = Inr ''0x0000000000000000000000000000000000000001''"
  by (rule getAddress_digits) (simp_all add: isDigit_def)

lemma parseAgentId_test: "parseAgentId ''1:42'' = Inr (Integral 1, Integral 42)"
  by (simp add: parseAgentId_def isDigit_def decValue_def)

lemma ensEndpoint_test: "ensEndpoint registrationFile = Some ''test-agent.eth''"
  by (simp add: ensEndpoint_def registrationFile_def)

lemma toBeHex_1: "toBeHex 1 = Inr ''0x01''"
  by (simp add: toBeHex_def toString16_small hexChar_def char_of_eq_iff)

lemma key_test:
  "buildAgentRegistryRecordKey buildFromPayload (Integral 1) ''eip155'' =
     Inr ''agent-registry:00010000010100''"
proof -
  have g: "getBytes ''0x01'' = Inr [1]"
    by (simp add: getBytes_def startsWith_0x isHexDigit_def isDigit_def hexDigitValue_def)
  have l: "toLowerCase ''0x01'' = ''0x01''"
    by (simp add: toLowerCase_def toLowerChar_def)
  have b: "buildFromPayload \<lparr>ip_version = 1, ip_chainType = ''eip155'',
      ip_chainReference = ''0x01'', ip_address = ''0x''\<rparr> = Inr ''0x00010000010100''"
    by (simp add: buildFromPayload_def g hexlify_def byteHex_def hexChar_def padStart_def
        toString16_small char_of_eq_iff)
  have l2: "toLowerCase ''00010000010100'' = ''00010000010100''"
    by (simp add: toLowerCase_def toLowerChar_def)
  show ?thesis
    by (simp add: buildAgentRegistryRecordKey_def encode7930ChainIdentifierHex_def
        CAIP_NAMESPACE_CODES_def BigInt_def toBeHex_1 l b l2)
qed

lemma value_test:
  "decodeAgentRegistryRecord ''0x1234567890123456789012345678901234567890012a'' =
     Inr \<lparr>version = 1, chainType = 0, chainReference = 0,
          address = ''0x1234567890123456789012345678901234567890'', agentId = 42\<rparr>"
proof -
  have p: "parseInt16 ''01'' = Some 1"
    by (simp add: parseInt16_def isWhiteSpace_def isHexDigit_def isDigit_def isLowerAF_def
        isUpperAF_def hexValue_def hexDigitValue_def)
  have h: "hexPairs (toLowerCase ''2a'') = Some [42]"
    by (simp add: toLowerCase_def toLowerChar_def isHexDigit_def isDigit_def isLowerAF_def
        isUpperAF_def hexDigitValue_def)
  have g: "getAddress ''0x1234567890123456789012345678901234567890''
      = Inr ''0x1234567890123456789012345678901234567890''"
    by (rule getAddress_digits) (simp_all add: isDigit_def)
  show ?thesis
    using decode_structured [of "''0x1234567890123456789012345678901234567890''" "''01''" 1 "''2a''" "[42]"]
    by (simp add: p h g bytesValue_def)
qed

lemma load_test:
  "loadAgentRegistryRecord buildFromPayload
     (sdkProvider (createAgentWithResolver (JString ''0x1234567890123456789012345678901234567890012a'') r))
     ''test-agent.eth'' (Integral 1) ''eip155'' =
   (Inr (Some \<lparr>version = 1, chainType = 0, chainReference = 1,
          address = ''0x1234567890123456789012345678901234567890'', agentId = 42\<rparr>),
    [GetResolver ''test-agent.eth'', GetText ''agent-registry:00010000010100''])"
proof -
  have l: "toLowerCase ''agent-registry:00010000010100'' = ''agent-registry:00010000010100''"
    by (simp add: toLowerCase_def toLowerChar_def)
  show ?thesis
    by (simp add: loadAgentRegistryRecord_def key_test fetchAgentRegistryRecord_def
        createAgentWithResolver_def l truthy_def decodeAgentRegistryRecord_value_def value_test
        BigInt_def)
qed

lemma getAddress_garbage: "getAddress ''not-an-address'' = Inl InvalidAddress"
  by (simp add: getAddress_def isHexAddress_def isIcapAddress_def)

lemma agentId_test: "registeredAgentId registrationFile = Some ''1:42''"
  by (simp add: registrationFile_def)

lemma registry_test: "sdkIdentityRegistry (createAgentWithResolver v r) = GetAddressReturns r"
  by (simp add: createAgentWithResolver_def)

lemma fetch_test:
  "fetchAgentRegistryRecord (sdkProvider (createAgentWithResolver v r)) ''test-agent.eth''
     ''agent-registry:00010000010100'' =
   (v, [GetResolver ''test-agent.eth'', GetText ''agent-registry:00010000010100''])"
  by (simp add: fetchAgentRegistryRecord_def createAgentWithResolver_def toLowerCase_def
      toLowerChar_def)

section \<open>The loader, for every fetched value\<close>

text \<open>
  Once the record key is built, \<open>loadAgentRegistryRecord\<close> raises for no fetched value, of
  any type: it returns \<open>null\<close> for a falsy value and for a value on which the decoder
  throws, and otherwise the decoded record with its \<open>chainReference\<close> replaced by the chain
  id the key was built from. The decoder throws on a string without the prefix \<open>0x\<close>, of
  fewer than 44 characters, with a length field that \<open>parseInt\<close> reads as \<open>NaN\<close> or as a
  negative number, with a payload that is no sequence of pairs of hexadecimal digits,
  with a declared length that is not the number of bytes of the payload, or with an
  address that \<open>ethers.getAddress\<close> rejects.
\<close>

lemma load_result:
  assumes "buildAgentRegistryRecordKey bfp (Integral c) ns = Inr key"
    and "fetchAgentRegistryRecord provider ensName key = (v, calls)"
  shows "loadAgentRegistryRecord bfp provider ensName (Integral c) ns =
      (Inr (if truthy v
            then (case decodeAgentRegistryRecord_value v of
                    Inl e \<Rightarrow> None
                  | Inr decoded \<Rightarrow> Some (decoded\<lparr>chainReference := c\<rparr>))
            else None), calls) \<and>
    (\<forall>s. v = JString s \<and>
       (\<not> startsWith s ''0x'' \<or> length s < 44 \<or>
        parseInt16 (slice s 42 44) = None \<or>
        (\<exists>k<0. parseInt16 (slice s 42 44) = Some k) \<or>
        hexPairs (toLowerCase (drop 44 s)) = None \<or>
        (\<exists>k bs. parseInt16 (slice s 42 44) = Some k \<and>
           hexPairs (toLowerCase (drop 44 s)) = Some bs \<and> int (length bs) \<noteq> k) \<or>
        (\<exists>e. getAddress (slice s 0 42) = Inl e)) \<longrightarrow>
       loadAgentRegistryRecord bfp provider ensName (Integral c) ns = (Inr None, calls))"
proof -
  have l: "loadAgentRegistryRecord bfp provider ensName (Integral c) ns =
      (Inr (if truthy v
            then (case decodeAgentRegistryRecord_value v of
                    Inl e \<Rightarrow> None
                  | Inr decoded \<Rightarrow> Some (decoded\<lparr>chainReference := c\<rparr>))
            else None), calls)"
    using assms by (simp add: loadAgentRegistryRecord_def BigInt_def split: sum.split)
  have n: "loadAgentRegistryRecord bfp provider ensName (Integral c) ns = (Inr None, calls)"
    if "v = JString s" and "\<exists>e. decodeAgentRegistryRecord s = Inl e" for s
    using that by (auto simp: l decodeAgentRegistryRecord_value_def)
  have "loadAgentRegistryRecord bfp provider ensName (Integral c) ns = (Inr None, calls)"
    if "v = JString s" and "\<not> startsWith s ''0x'' \<or> length s < 44 \<or>
        parseInt16 (slice s 42 44) = None \<or>
        (\<exists>k<0. parseInt16 (slice s 42 44) = Some k) \<or>
        hexPairs (toLowerCase (drop 44 s)) = None \<or>
        (\<exists>k bs. parseInt16 (slice s 42 44) = Some k \<and>
           hexPairs (toLowerCase (drop 44 s)) = Some bs \<and> int (length bs) \<noteq> k) \<or>
        (\<exists>e. getAddress (slice s 0 42) = Inl e)" for s
    using n [OF that(1) decode_malformed [OF that(2)]] .
  with l show ?thesis
    by blast
qed

lemma load_result_test:
  "buildAgentRegistryRecordKey buildFromPayload (Integral 1) ''eip155''
     = Inr ''agent-registry:00010000010100'' \<and>
   loadAgentRegistryRecord buildFromPayload
     (sdkProvider (createAgentWithResolver
        (JString ''0x1234567890123456789012345678901234567890012a'') JNull))
     ''test-agent.eth'' (Integral 1) ''eip155'' =
   (Inr (Some \<lparr>version = 1, chainType = 0, chainReference = 1,
          address = ''0x1234567890123456789012345678901234567890'', agentId = 42\<rparr>),
    [GetResolver ''test-agent.eth'', GetText ''agent-registry:00010000010100'']) \<and>
   loadAgentRegistryRecord buildFromPayload
     (sdkProvider (createAgentWithResolver (JString ''1234'') JNull))
     ''test-agent.eth'' (Integral 1) ''eip155'' =
   (Inr None, [GetResolver ''test-agent.eth'', GetText ''agent-registry:00010000010100''])"
proof -
  let ?good = "JString ''0x1234567890123456789012345678901234567890012a''"
  have t: "truthy ?good"
    by (simp add: truthy_def)
  have s: "\<not> startsWith ''1234'' ''0x''"
    by (simp add: startsWith_0x)
  have good: "loadAgentRegistryRecord buildFromPayload
        (sdkProvider (createAgentWithResolver ?good JNull)) ''test-agent.eth'' (Integral 1) ''eip155'' =
      (Inr (Some \<lparr>version = 1, chainType = 0, chainReference = 1,
          address = ''0x1234567890123456789012345678901234567890'', agentId = 42\<rparr>),
       [GetResolver ''test-agent.eth'', GetText ''agent-registry:00010000010100''])"
    using conjunct1 [OF load_result [OF key_test fetch_test [of ?good JNull]]] t
    by (simp add: decodeAgentRegistryRecord_value_def value_test)
  have bad: "loadAgentRegistryRecord buildFromPayload
        (sdkProvider (createAgentWithResolver (JString ''1234'') JNull)) ''test-agent.eth''
        (Integral 1) ''eip155'' =
      (Inr None, [GetResolver ''test-agent.eth'', GetText ''agent-registry:00010000010100''])"
    using conjunct2 [OF load_result
        [OF key_test fetch_test [of "JString ''1234''" JNull]], THEN spec, of "''1234''"] s
    by simp
  from good bad show ?thesis
    by (simp add: key_test)
qed

section \<open>The claims\<close>

subsection \<open>C1: the top-level verification and exceptions\<close>

text \<open>
  C1. The claim is that \<open>Agent.verifyENSName\<close> returns \<open>true\<close> or \<open>false\<close> and never
  propagates an exception, also when the registry address given to the matcher is no
  valid address. In the source, \<open>recordMatchesAgent\<close> is called outside every \<open>try\<close>, and
  it normalises the expected registry address with \<open>ethers.getAddress\<close>, which throws on
  a string that is no address. With the agent and the resolver of the test, a record
  value that matches the agent, and a registry contract whose \<open>getAddress\<close> resolves to
  \<open>not-an-address\<close>, the promise of \<open>verifyENSName\<close> rejects with \<open>invalid address\<close>, after
  the registry-address lookup.
\<close>

theorem verifyENSName_throws_on_invalid_registry_address:
  "verifyENSName parseAgentId buildFromPayload
     (createAgentWithResolver (JString ''0x1234567890123456789012345678901234567890012a'')
        (JString ''not-an-address''))
     registrationFile =
   (Inl InvalidAddress,
    [GetResolver ''test-agent.eth'', GetText ''agent-registry:00010000010100'',
     GetIdentityRegistry, RegistryGetAddress])"
  by (simp add: verifyENSName_def ensEndpoint_test agentId_test falsyString_def
      parseAgentId_test BigInt_def load_test registry_test recordMatchesAgent_def
      getAddress_value_def getAddress_garbage)

subsection \<open>C2: the match is a conjunction\<close>

text \<open>
  C2. \<open>recordMatchesAgent\<close> returns \<open>true\<close> exactly when the version is 1, the chain type
  is the code \<open>0x0000\<close> of \<open>eip155\<close>, the chain reference is the expected chain id, the
  checksum form of the expected registry address is the address of the record, and the
  agent id is the expected one. When a record matches, another expected chain id,
  another expected agent id, or an expected registry address whose checksum form is
  another one, gives \<open>false\<close>.
\<close>

theorem recordMatchesAgent_conjunctive:
  "(recordMatchesAgent record expected = Inr True \<longleftrightarrow>
      version record = 1 \<and> chainType record = 0 \<and>
      chainReference record = expectedChainId expected \<and>
      getAddress_value (expectedRegistryAddress expected) = Inr (address record) \<and>
      agentId record = expectedAgentId expected) \<and>
   (recordMatchesAgent record expected = Inr True \<longrightarrow>
      (\<forall>c. c \<noteq> expectedChainId expected \<longrightarrow>
         recordMatchesAgent record (expected\<lparr>expectedChainId := c\<rparr>) = Inr False) \<and>
      (\<forall>t. t \<noteq> expectedAgentId expected \<longrightarrow>
         recordMatchesAgent record (expected\<lparr>expectedAgentId := t\<rparr>) = Inr False) \<and>
      (\<forall>r a. getAddress_value r = Inr a \<and> a \<noteq> address record \<longrightarrow>
         recordMatchesAgent record (expected\<lparr>expectedRegistryAddress := r\<rparr>) = Inr False))"
proof -
  have iff: "recordMatchesAgent record expected = Inr True \<longleftrightarrow>
      version record = 1 \<and> chainType record = 0 \<and>
      chainReference record = expectedChainId expected \<and>
      getAddress_value (expectedRegistryAddress expected) = Inr (address record) \<and>
      agentId record = expectedAgentId expected"
    by (auto simp: recordMatchesAgent_def split: sum.splits if_splits)
  have chain: "recordMatchesAgent record (expected\<lparr>expectedChainId := c\<rparr>) = Inr False"
    if "recordMatchesAgent record expected = Inr True" "c \<noteq> expectedChainId expected" for c
    using that by (auto simp: recordMatchesAgent_def split: sum.splits if_splits)
  have agent: "recordMatchesAgent record (expected\<lparr>expectedAgentId := t\<rparr>) = Inr False"
    if "recordMatchesAgent record expected = Inr True" "t \<noteq> expectedAgentId expected" for t
    using that by (auto simp: recordMatchesAgent_def split: sum.splits if_splits)
  have registry: "recordMatchesAgent record (expected\<lparr>expectedRegistryAddress := r\<rparr>) = Inr False"
    if "recordMatchesAgent record expected = Inr True" "getAddress_value r = Inr a"
      "a \<noteq> address record" for r a
    using that by (auto simp: recordMatchesAgent_def split: sum.splits if_splits)
  from iff chain agent registry show ?thesis
    by blast
qed

theorem recordMatchesAgent_conjunctive_witness:
  "recordMatchesAgent testRecord testExpected = Inr True \<and>
   recordMatchesAgent testRecord (testExpected\<lparr>expectedChainId := 2\<rparr>) = Inr False \<and>
   recordMatchesAgent testRecord (testExpected\<lparr>expectedAgentId := 43\<rparr>) = Inr False \<and>
   recordMatchesAgent testRecord
     (testExpected\<lparr>expectedRegistryAddress :=
        JString ''0x0000000000000000000000000000000000000001''\<rparr>) = Inr False"
proof -
  have m: "recordMatchesAgent testRecord testExpected = Inr True"
    using recordMatchesAgent_conjunctive [of testRecord testExpected]
    by (simp add: testRecord_def testExpected_def getAddress_value_def getAddress_test)
  have o: "getAddress_value (JString ''0x0000000000000000000000000000000000000001'')
      = Inr ''0x0000000000000000000000000000000000000001''"
    by (simp add: getAddress_value_def getAddress_other)
  have d: "''0x0000000000000000000000000000000000000001'' \<noteq> address testRecord"
    by (simp add: testRecord_def)
  from m o d show ?thesis
    using recordMatchesAgent_conjunctive [of testRecord testExpected]
    by (simp add: testExpected_def)
qed

text \<open>
  As the claim states it, any change of one expected field gives \<open>false\<close>. The registry
  address is compared after \<open>ethers.getAddress\<close>: the same address written without \<open>0x\<close>
  (or in another letter case) still matches, and a text that is no address makes the
  comparison throw.
\<close>

theorem recordMatchesAgent_change_counterexample:
  "recordMatchesAgent testRecord testExpected = Inr True \<and>
   recordMatchesAgent testRecord
     (testExpected\<lparr>expectedRegistryAddress :=
        JString ''1234567890123456789012345678901234567890''\<rparr>) = Inr True \<and>
   recordMatchesAgent testRecord
     (testExpected\<lparr>expectedRegistryAddress := JString ''not-an-address''\<rparr>)
     = Inl InvalidAddress"
  by (simp add: recordMatchesAgent_def testRecord_def testExpected_def getAddress_value_def
      getAddress_test getAddress_unprefixed getAddress_garbage)

subsection \<open>C3: encoding, then decoding\<close>

text \<open>
  C3. For every registry address that \<open>ethers.getAddress\<close> accepts as an address of 20
  bytes (its checksum form \<open>c\<close> has 42 characters) and every agent id \<open>n\<close> with
  \<open>0 \<le> n < 2 ^ 2040\<close>, the encoder of the test returns a value, and
  \<open>decodeAgentRegistryRecord\<close> decodes that value to the record with the address \<open>c\<close> and
  the agent id \<open>n\<close>.
\<close>

theorem encode_decode_roundtrip:
  assumes "getAddress registryAddress = Inr c" "length c = 42" "0 \<le> n" "n < 2 ^ 2040"
  shows "\<exists>v. encodeAgentRegistryRecord registryAddress n = Inr v \<and>
    decodeAgentRegistryRecord v =
      Inr \<lparr>version = 1, chainType = 0, chainReference = 0, address = c, agentId = n\<rparr>"
proof -
  define bs where "bs = (if n = 0 then [0] else minimalBigEndian (nat n))"
  define lf where "lf = padStart 2 (toString16 (length bs))"
  define p where "p = concat (map byteHex bs)"
  have props: "length bs < 256" "list_all (\<lambda>b. b < 256) bs" "int (bytesValue bs) = n"
    unfolding bs_def using assms(3,4) by (rule agentIdBytes_props)+
  have enc: "encodeAgentRegistryRecord registryAddress n = Inr (c @ lf @ p)"
    using encode_value [OF assms(1,3,4)] by (simp add: bs_def lf_def p_def)
  have lf: "length lf = 2" "parseInt16 lf = Some (int (length bs))"
    unfolding lf_def using props(1) by (rule lengthField)+
  have hp: "hexPairs (toLowerCase p) = Some bs"
    using props(2) by (simp add: p_def toLowerCase_byteHex hexPairs_byteHex)
  have "decodeAgentRegistryRecord (c @ lf @ p) =
      Inr \<lparr>version = 1, chainType = 0, chainReference = 0, address = c, agentId = n\<rparr>"
    using decode_structured [OF assms(2) getAddress_idem(2) [OF assms(1,2)] lf hp]
      getAddress_idem(1) [OF assms(1,2)] props(3)
    by simp
  with enc show ?thesis
    by blast
qed

theorem encode_decode_roundtrip_witness:
  "getAddress ''0x1234567890123456789012345678901234567890''
     = Inr ''0x1234567890123456789012345678901234567890'' \<and>
   length ''0x1234567890123456789012345678901234567890'' = 42 \<and>
   (0 :: int) \<le> 167 \<and> (167 :: int) < 2 ^ 2040 \<and>
   (\<exists>v. encodeAgentRegistryRecord ''0x1234567890123456789012345678901234567890'' 167 = Inr v \<and>
     decodeAgentRegistryRecord v =
       Inr \<lparr>version = 1, chainType = 0, chainReference = 0,
            address = ''0x1234567890123456789012345678901234567890'', agentId = 167\<rparr>)"
proof -
  have n: "(167 :: int) < 2 ^ 2040"
    by simp
  from encode_decode_roundtrip [OF getAddress_test _ _ n]
  show ?thesis
    using n by (simp add: getAddress_test)
qed

subsection \<open>C4: the length byte of the encoder\<close>

text \<open>
  C4. For every agent id \<open>n\<close> with \<open>0 \<le> n < 2 ^ 2040\<close>, the encoder of the test writes the
  checksum address, two hexadecimal digits whose value is the number of bytes of the
  payload, and the payload, two digits for each byte; the payload is the minimal
  big-endian encoding of \<open>n\<close> when \<open>n\<close> is not 0, and the single byte \<open>00\<close> when \<open>n\<close> is 0
  (\<open>toBeHex(0)\<close> is \<open>0x00\<close>). The agent id \<open>0xa7\<close> is written as \<open>01a7\<close>.
\<close>

theorem encode_length_prefix:
  assumes "getAddress registryAddress = Inr c" "0 \<le> n" "n < 2 ^ 2040"
  shows "let bs = (if n = 0 then [0] else minimalBigEndian (nat n));
             lf = padStart 2 (toString16 (length bs))
         in encodeAgentRegistryRecord registryAddress n = Inr (c @ lf @ concat (map byteHex bs)) \<and>
            length lf = 2 \<and> hexValue lf = length bs \<and>
            length (concat (map byteHex bs)) = 2 * length bs \<and> int (bytesValue bs) = n"
proof -
  define bs where "bs = (if n = 0 then [0] else minimalBigEndian (nat n))"
  have props: "length bs < 256" "list_all (\<lambda>b. b < 256) bs" "int (bytesValue bs) = n"
    unfolding bs_def using assms(2,3) by (rule agentIdBytes_props)+
  have "length (concat (map byteHex bs)) = 2 * length bs"
    using hexPairs_length [OF hexPairs_byteHex [OF props(2)]] .
  then show ?thesis
    using encode_value [OF assms] lengthField(1,3) [OF props(1)] props(3)
    by (simp add: bs_def [symmetric] Let_def)
qed

theorem encode_length_prefix_witness:
  "getAddress ''0x1234567890123456789012345678901234567890''
     = Inr ''0x1234567890123456789012345678901234567890'' \<and>
   (0 :: int) \<le> 167 \<and> (167 :: int) < 2 ^ 2040 \<and>
   minimalBigEndian 167 = [167] \<and>
   encodeAgentRegistryRecord ''0x1234567890123456789012345678901234567890'' 167
     = Inr ''0x123456789012345678901234567890123456789001a7''"
proof -
  have n: "(167 :: int) < 2 ^ 2040"
    by simp
  have m: "minimalBigEndian 167 = [167]"
    by (simp add: minimalBigEndian_byte)
  from encode_length_prefix [OF getAddress_test _ n]
  show ?thesis
    using n
    by (simp add: getAddress_test m Let_def lengthField_small byteHex_def hexChar_def
        char_of_eq_iff)
qed

text \<open>
  As the claim states it, the agent id 0 is encoded as no byte at all, with the length
  byte \<open>00\<close>. The minimal big-endian encoding of 0 is empty, but the encoder writes \<open>0100\<close>.
\<close>

theorem encode_zero_counterexample:
  "minimalBigEndian 0 = [] \<and>
   encodeAgentRegistryRecord ''0x1234567890123456789012345678901234567890'' 0
     = Inr ''0x12345678901234567890123456789012345678900100''"
proof -
  have n: "(0 :: int) < 2 ^ 2040"
    by simp
  show ?thesis
    using encode_value [OF getAddress_test _ n]
    by (simp add: minimalBigEndian.simps [of 0] lengthField_small byteHex_def hexChar_def
        char_of_eq_iff)
qed

subsection \<open>C5: the length field\<close>

text \<open>
  C5. The claim is that \<open>decodeAgentRegistryRecord\<close> rejects with
  \<open>Invalid agent ID length\<close> every value whose two characters at positions 42 and 43
  are not a pair of hexadecimal digits, and never coerces a malformed length field. The
  source parses the field with \<open>parseInt(s, 16)\<close>, which reads the longest prefix of
  hexadecimal digits: the field \<open>1g\<close> is read as the length 1, and the value is decoded
  to a record. (A field that \<open>parseInt\<close> reads as \<open>NaN\<close> or as a negative number is rejected
  with that error: \<open>decode_unparsable_length\<close>.)
\<close>

theorem decode_lenient_length:
  "decodeAgentRegistryRecord ''0x12345678901234567890123456789012345678901ga7'' =
     Inr \<lparr>version = 1, chainType = 0, chainReference = 0,
          address = ''0x1234567890123456789012345678901234567890'', agentId = 167\<rparr>"
proof -
  have p: "parseInt16 ''1g'' = Some 1"
    by (simp add: parseInt16_def isWhiteSpace_def isHexDigit_def isDigit_def isLowerAF_def
        isUpperAF_def hexValue_def hexDigitValue_def)
  have h: "hexPairs (toLowerCase ''a7'') = Some [167]"
    by (simp add: toLowerCase_def toLowerChar_def isHexDigit_def isDigit_def isLowerAF_def
        isUpperAF_def hexDigitValue_def)
  have g: "getAddress ''0x1234567890123456789012345678901234567890''
      = Inr ''0x1234567890123456789012345678901234567890''"
    by (rule getAddress_digits) (simp_all add: isDigit_def)
  show ?thesis
    using decode_structured [of "''0x1234567890123456789012345678901234567890''" "''1g''" 1 "''a7''" "[167]"]
    by (simp add: p h g bytesValue_def)
qed

subsection \<open>C6: no resolver, no registry lookup\<close>

text \<open>
  C6. When \<open>getResolver\<close> of the provider returns \<open>null\<close> (or another falsy value) or throws
  for the ENS name of the agent, a call of \<open>verifyENSName\<close> never invokes
  \<open>sdk.getIdentityRegistry()\<close> nor \<open>getAddress()\<close> of the registry, and a call in which
  \<open>getResolver\<close> was invoked returns \<open>false\<close>, with no other call made.
\<close>

theorem missing_resolver_fails_closed:
  assumes "ensEndpoint rf = Some ensName"
    and "sdkProvider sdk ensName = ResolverFalsy \<or> sdkProvider sdk ensName = ResolverThrows"
  shows "GetIdentityRegistry \<notin> set (snd (verifyENSName parse bfp sdk rf)) \<and>
    RegistryGetAddress \<notin> set (snd (verifyENSName parse bfp sdk rf)) \<and>
    (GetResolver ensName \<in> set (snd (verifyENSName parse bfp sdk rf)) \<longrightarrow>
       verifyENSName parse bfp sdk rf = (Inr False, [GetResolver ensName]))"
  using assms(1)
  by (auto simp: verifyENSName_def Let_def
      load_no_resolver [of "sdkProvider sdk" ensName, OF assms(2)]
      split: sum.splits prod.splits option.splits)

theorem missing_resolver_fails_closed_witness:
  "ensEndpoint registrationFile = Some ''test-agent.eth'' \<and>
   sdkProvider (sdkWithoutResolver (JString ''0x1234567890123456789012345678901234567890''))
     ''test-agent.eth'' = ResolverFalsy \<and>
   verifyENSName parseAgentId buildFromPayload
     (sdkWithoutResolver (JString ''0x1234567890123456789012345678901234567890''))
     registrationFile = (Inr False, [GetResolver ''test-agent.eth''])"
proof -
  let ?sdk = "sdkWithoutResolver (JString ''0x1234567890123456789012345678901234567890'')"
  have p: "sdkProvider ?sdk ''test-agent.eth'' = ResolverFalsy"
    by (simp add: sdkWithoutResolver_def)
  have "GetResolver ''test-agent.eth''
      \<in> set (snd (verifyENSName parseAgentId buildFromPayload ?sdk registrationFile))"
    by (simp add: verifyENSName_def ensEndpoint_test agentId_test falsyString_def
        parseAgentId_test BigInt_def key_test
        load_no_resolver [of "sdkProvider ?sdk" "''test-agent.eth''", OF disjI1 [OF p]])
  with missing_resolver_fails_closed [of registrationFile "''test-agent.eth''" ?sdk
      parseAgentId buildFromPayload, OF ensEndpoint_test disjI1 [OF p]]
  show ?thesis
    using p by (simp add: ensEndpoint_test)
qed

subsection \<open>C7: the loader and malformed values\<close>

text \<open>
  C7. The claim is that \<open>loadAgentRegistryRecord\<close> returns \<open>null\<close> for every fetched value
  that is malformed in any way, a value with an unparsable length field among them. The
  loader returns \<open>null\<close> exactly when the value is falsy or the decoder throws
  (\<open>load_result\<close>), and the decoder reads the length field with \<open>parseInt(s, 16)\<close>, which
  accepts every field that begins with a hexadecimal digit: for the fetched value
  \<open>0x1234567890123456789012345678901234567890\<close>, \<open>1g\<close>, \<open>a7\<close> the loader returns the record
  of the agent id \<open>0xa7\<close> on chain 1, not \<open>null\<close>.
\<close>

theorem load_lenient_length:
  "loadAgentRegistryRecord buildFromPayload
     (sdkProvider (createAgentWithResolver
        (JString ''0x12345678901234567890123456789012345678901ga7'') JNull))
     ''test-agent.eth'' (Integral 1) ''eip155'' =
   (Inr (Some \<lparr>version = 1, chainType = 0, chainReference = 1,
          address = ''0x1234567890123456789012345678901234567890'', agentId = 167\<rparr>),
    [GetResolver ''test-agent.eth'', GetText ''agent-registry:00010000010100''])"
proof -
  have p: "parseInt16 ''1g'' = Some 1"
    by (simp add: parseInt16_def isWhiteSpace_def isHexDigit_def isDigit_def isLowerAF_def
        isUpperAF_def hexValue_def hexDigitValue_def)
  have h: "hexPairs (toLowerCase ''a7'') = Some [167]"
    by (simp add: toLowerCase_def toLowerChar_def isHexDigit_def isDigit_def isLowerAF_def
        isUpperAF_def hexDigitValue_def)
  have d: "decodeAgentRegistryRecord ''0x12345678901234567890123456789012345678901ga7'' =
      Inr \<lparr>version = 1, chainType = 0, chainReference = 0,
           address = ''0x1234567890123456789012345678901234567890'', agentId = 167\<rparr>"
    using decode_structured [of "''0x1234567890123456789012345678901234567890''" "''1g''" 1
        "''a7''" "[167]"]
    by (simp add: p h getAddress_test bytesValue_def)
  have t: "truthy (JString ''0x12345678901234567890123456789012345678901ga7'')"
    by (simp add: truthy_def)
  show ?thesis
    using t
    by (simp add: loadAgentRegistryRecord_def key_test fetch_test
        decodeAgentRegistryRecord_value_def d BigInt_def)
qed

subsection \<open>C8: the record key\<close>

text \<open>
  C8. The claim is that \<open>buildAgentRegistryRecordKey\<close> throws for every namespace tag that
  is not in the table of namespace codes, before any encoding work. The two guards read
  \<open>CAIP_NAMESPACE_CODES[namespace] === undefined\<close> on an object literal, and a property
  read on it finds the members of \<open>Object.prototype\<close>: for the tag \<open>constructor\<close> neither
  guard rejects, the chain id is encoded, and the outcome is that of
  \<open>InteropAddressProvider.buildFromPayload\<close> on the chain type \<open>constructor\<close>. (For the tag
  \<open>eip155\<close> and a chain reference that is not negative the key is \<open>agent-registry:\<close> and
  the payload of the library without its first two characters, in lower case:
  \<open>buildKey_eip155\<close>; a tag with no property at all and a negative chain reference are
  rejected: \<open>buildKey_unknown_namespace\<close>, \<open>buildKey_negative\<close>.)
\<close>

theorem buildKey_inherited_namespace:
  "CAIP_NAMESPACE_CODES ''constructor'' = Inherited \<and>
   buildAgentRegistryRecordKey bfp (Integral 1) ''constructor'' =
     (case bfp \<lparr>ip_version = 1, ip_chainType = ''constructor'',
                ip_chainReference = ''0x01'', ip_address = ''0x''\<rparr> of
        Inl e \<Rightarrow> Inl e
      | Inr payload \<Rightarrow> Inr (''agent-registry:'' @ toLowerCase (drop 2 payload)))"
proof -
  have l: "toLowerCase ''0x01'' = ''0x01''"
    by (simp add: toLowerCase_def toLowerChar_def)
  show ?thesis
    by (simp add: buildAgentRegistryRecordKey_def encode7930ChainIdentifierHex_def
        CAIP_NAMESPACE_CODES_def objectPrototypeKeys_def BigInt_def toBeHex_1 l
        split: sum.split)
qed

subsection \<open>C9: the empty text record\<close>



subsection \<open>C10: the letter case of the address and of the payload\<close>

text \<open>
  C10. For an address segment \<open>0x\<close> and 40 hexadecimal digits \<open>h\<close>, a length field and a
  payload that agree, \<open>decodeAgentRegistryRecord\<close> rejects the value only when \<open>h\<close> has
  letters of both cases and is not its own checksum form; the all-lowercase and the
  all-uppercase writing of \<open>h\<close> are accepted, and the address of the record is the
  checksum form. The payload in upper case is decoded as the payload itself.
\<close>

theorem decode_accepts_any_case:
  assumes "length h = 40" "list_all isHexDigit h" "length lf = 2"
    and "parseInt16 lf = Some (int (length bs))" "hexPairs p = Some bs"
  shows
    "decodeAgentRegistryRecord (''0x'' @ h @ lf @ p) =
       (if isMixedCase h \<and> getChecksumAddress (''0x'' @ h) \<noteq> ''0x'' @ h
        then Inl BadAddressChecksum
        else Inr \<lparr>version = 1, chainType = 0, chainReference = 0,
                  address = getChecksumAddress (''0x'' @ h), agentId = int (bytesValue bs)\<rparr>) \<and>
     decodeAgentRegistryRecord (''0x'' @ toLowerCase h @ lf @ p) =
       Inr \<lparr>version = 1, chainType = 0, chainReference = 0,
            address = getChecksumAddress (''0x'' @ h), agentId = int (bytesValue bs)\<rparr> \<and>
     decodeAgentRegistryRecord (''0x'' @ toUpperCase h @ lf @ p) =
       Inr \<lparr>version = 1, chainType = 0, chainReference = 0,
            address = getChecksumAddress (''0x'' @ h), agentId = int (bytesValue bs)\<rparr> \<and>
     decodeAgentRegistryRecord (''0x'' @ h @ lf @ toUpperCase p) =
       decodeAgentRegistryRecord (''0x'' @ h @ lf @ p)"
proof -
  have p: "hexPairs (toLowerCase p) = Some bs" "hexPairs (toLowerCase (toUpperCase p)) = Some bs"
    using assms(5) by (simp_all add: toLowerCase_def toUpperCase_def comp_def)
  have lo: "length (toLowerCase h) = 40" "list_all isHexDigit (toLowerCase h)"
    using assms(1,2) by (simp_all add: toLowerCase_def list_all_iff)
  have up: "length (toUpperCase h) = 40" "list_all isHexDigit (toUpperCase h)"
    using assms(1,2) by (simp_all add: toUpperCase_def list_all_iff)
  show ?thesis
    using decode_hex_address [OF assms(1,2,3,4) p(1)]
      decode_hex_address [OF lo assms(3,4) p(1)]
      decode_hex_address [OF up assms(3,4) p(1)]
      decode_hex_address [OF assms(1,2,3,4) p(2)]
    by (simp add: not_mixed_lower not_mixed_upper checksum_lower checksum_upper)
qed

theorem decode_accepts_any_case_witness:
  "length ''d8da6bf26964af9d7eed9e03e53415d37aa96045'' = 40 \<and>
   list_all isHexDigit ''d8da6bf26964af9d7eed9e03e53415d37aa96045'' \<and>
   parseInt16 ''01'' = Some 1 \<and> hexPairs ''A7'' = Some [167] \<and>
   decodeAgentRegistryRecord ''0xD8DA6BF26964AF9D7EED9E03E53415D37AA9604501A7'' =
     Inr \<lparr>version = 1, chainType = 0, chainReference = 0,
          address = getChecksumAddress ''0xd8da6bf26964af9d7eed9e03e53415d37aa96045'',
          agentId = 167\<rparr> \<and>
   decodeAgentRegistryRecord ''0xd8da6bf26964af9d7eed9e03e53415d37aa9604501a7'' =
     Inr \<lparr>version = 1, chainType = 0, chainReference = 0,
          address = getChecksumAddress ''0xd8da6bf26964af9d7eed9e03e53415d37aa96045'',
          agentId = 167\<rparr>"
proof -
  let ?h = "''d8da6bf26964af9d7eed9e03e53415d37aa96045''"
  have h: "length ?h = 40" "list_all isHexDigit ?h"
    by (simp_all add: isHexDigit_def isDigit_def isLowerAF_def isUpperAF_def)
  have lf: "length ''01'' = 2" "parseInt16 ''01'' = Some (int (length [167 :: nat]))"
    by (simp_all add: parseInt16_def isWhiteSpace_def isHexDigit_def isDigit_def isLowerAF_def
        isUpperAF_def hexValue_def hexDigitValue_def)
  have p: "hexPairs ''A7'' = Some [167]"
    by (simp add: isHexDigit_def isDigit_def isLowerAF_def isUpperAF_def hexDigitValue_def)
  have u: "toUpperCase ?h = ''D8DA6BF26964AF9D7EED9E03E53415D37AA96045''"
    by (simp add: toUpperCase_def toUpperChar_def isLowerAZ_def char_of_eq_iff)
  have l: "toLowerCase ?h = ?h" "toLowerCase ''A7'' = ''a7''"
    by (simp_all add: toLowerCase_def toLowerChar_def char_of_eq_iff)
  have q: "hexPairs ''a7'' = Some [167]"
    by (simp add: isHexDigit_def isDigit_def isLowerAF_def isUpperAF_def hexDigitValue_def)
  have m: "\<not> isMixedCase ?h"
    by (simp add: isMixedCase_def isUpperAF_def)
  from decode_accepts_any_case [OF h lf p] decode_accepts_any_case [OF h lf q]
  show ?thesis
    using h lf p by (simp add: u l m bytesValue_def)
qed

end
